theory Spec2Isabelle
  imports Main "HOL-Library.Sublist"
begin

section \<open>Values, property cells and objects\<close>

text \<open>
  The Go sources \<^verbatim>\<open>object.go\<close> and \<^verbatim>\<open>builtin_weakmap.go\<close> of the runtime are embedded
  here. A \<^verbatim>\<open>*Object\<close> pointer is an address; a pointer that may be nil is a
  \<open>ref option\<close>.
\<close>

type_synonym ref = nat

text \<open>
  The Go interface \<^verbatim>\<open>Value\<close>. \<open>GoNil\<close> is the nil interface value (absence).
  \<open>VObject p\<close> is a \<^verbatim>\<open>*Object\<close> stored in the interface: \<open>VObject None\<close> is a nil
  pointer of type \<^verbatim>\<open>*Object\<close> held in a non-nil interface, which Go does not equate with
  the nil interface. \<open>VProperty\<close> is a \<^verbatim>\<open>*valueProperty\<close>, the reified property cell;
  its fields are the ones \<^verbatim>\<open>getOwnPropertyDescriptor\<close> and \<^verbatim>\<open>_defineOwnProperty\<close>
  read and write. The field \<^verbatim>\<open>value\<close> is called \<open>pvalue\<close> here. Numbers are integers
  in this model. A property cell is owned by the one slot that holds it (every cell in
  the sources is created fresh for its slot), so a cell is stored by value.
\<close>

datatype Value =
    GoNil
  | VUndefined
  | VNull
  | VBool bool
  | VInt int
  | VString string
  | VObject "ref option"
  | VProperty valueProperty
and valueProperty =
  ValueProperty (pvalue: Value) (writable: bool) (configurable: bool) (enumerable: bool)
    (accessor: bool) (getterFunc: "ref option") (setterFunc: "ref option")

text \<open>Every error the modelled code raises is a panic carrying a TypeError (told apart here
  by its message), except a nil pointer dereference.\<close>

datatype message =
    NotExtensible
  | CyclicProto
  | ReadOnlyProperty string
  | NoMessage
  | CannotRedefine string
  | CannotDelete string string
  | IncompatibleReceiver string
  | NotAnObject

datatype error = TypeError message | NilPointerDereference

record FunctionCall =
  This :: Value
  Arguments :: "Value list"

text \<open>
  How a modelled function ends: it returns, it panics, or it ends by calling a function
  object of the language (a getter or a setter) with a \<^verbatim>\<open>FunctionCall\<close>. The evaluator
  that runs function objects is outside these sources, so such a call is the result.
\<close>

datatype 'a outcome = Return 'a | Panic error | Invoke ref FunctionCall

text \<open>Modelled from the spec: \<^verbatim>\<open>Runtime.typeErrorResult\<close> is defined outside the given
  sources. A failure is silent or raises a type error, as the caller's \<open>throw\<close> says.\<close>

definition typeErrorResult :: "bool \<Rightarrow> message \<Rightarrow> error option" where
  "typeErrorResult throw msg = (if throw then Some (TypeError msg) else None)"

text \<open>A call of \<^verbatim>\<open>typeErrorResult\<close> followed by \<^verbatim>\<open>return\<close>.\<close>

definition rejected :: "bool \<Rightarrow> message \<Rightarrow> unit outcome" where
  "rejected throw msg =
     (case typeErrorResult throw msg of Some e \<Rightarrow> Panic e | None \<Rightarrow> Return ())"

text \<open>The struct \<^verbatim>\<open>baseObject\<close> (string-keyed part). \<^verbatim>\<open>values\<close> is \<open>vals\<close>,
  \<^verbatim>\<open>class\<close> is \<open>class_name\<close>. The field \<^verbatim>\<open>val\<close> points back to the object's own
  address, which is the address under which the heap holds it.\<close>

record baseObject =
  class_name :: string
  prototype :: "ref option"
  extensible :: bool
  vals :: "string \<rightharpoonup> Value"
  propNames :: "string list"

text \<open>Every Go pointer to an object is valid, so the heap is total. All objects are base
  objects: the dynamic calls \<^verbatim>\<open>o.val.self.f\<close> and \<^verbatim>\<open>o.prototype.self.f\<close> reach the
  \<^verbatim>\<open>baseObject\<close> methods.\<close>

type_synonym heap = "ref \<Rightarrow> baseObject"

text \<open>Reading a Go map: a missing key reads as the nil interface.\<close>

definition mapGet :: "(string \<rightharpoonup> Value) \<Rightarrow> string \<Rightarrow> Value" where
  "mapGet m name = (case m name of None \<Rightarrow> GoNil | Some v \<Rightarrow> v)"

text \<open>Modelled from the spec: the constant \<^verbatim>\<open>__proto__\<close> is declared outside the given
  sources; it is the "[[Prototype]]" pseudo-key, the string \<^verbatim>\<open>__proto__\<close>.\<close>

definition proto_key :: string where
  "proto_key = ''__proto__''"

subsection \<open>Own-property lookup\<close>

definition getOwnPropStr :: "baseObject \<Rightarrow> string \<Rightarrow> Value" where
  "getOwnPropStr ob name =
     (let v = mapGet (vals ob) name
      in if v = GoNil \<and> name = proto_key then VObject (prototype ob) else v)"

definition hasOwnPropertyStr :: "baseObject \<Rightarrow> string \<Rightarrow> bool" where
  "hasOwnPropertyStr ob name = (let v = mapGet (vals ob) name in v \<noteq> GoNil)"

subsection \<open>Property cells\<close>

text \<open>The methods \<^verbatim>\<open>isWritable\<close>, \<^verbatim>\<open>get\<close> and \<^verbatim>\<open>set\<close> of \<^verbatim>\<open>valueProperty\<close> are
  defined outside the given sources. By the spec a data property is assigned in place
  unless it is not writable, and reads as its value; an accessor is assigned by invoking
  its setter and read by invoking its getter, both with the receiver.\<close>

text \<open>Modelled from the spec: \<^verbatim>\<open>valueProperty.isWritable\<close>. A data property can be assigned
  when it is writable, an accessor when it has a setter to invoke.\<close>

definition isWritable :: "valueProperty \<Rightarrow> bool" where
  "isWritable p = (if accessor p then setterFunc p \<noteq> None else writable p)"

text \<open>Modelled from the spec: \<^verbatim>\<open>valueProperty.get\<close>. A data property reads as its value;
  an accessor is read by invoking its getter with the receiver, and reads as undefined
  when it has none.\<close>

definition valueProperty_get :: "valueProperty \<Rightarrow> Value \<Rightarrow> Value outcome" where
  "valueProperty_get p this =
     (if accessor p
      then (case getterFunc p of
              Some g \<Rightarrow> Invoke g \<lparr>This = this, Arguments = []\<rparr>
            | None \<Rightarrow> Return VUndefined)
      else Return (pvalue p))"

text \<open>Modelled from the spec: \<^verbatim>\<open>valueProperty.set\<close>. A data property takes the value in
  place; an accessor is assigned by invoking its setter with the receiver and the value,
  and is left as it is when it has none.\<close>

datatype setEffect = CellWritten valueProperty | SetterCalled ref FunctionCall

definition valueProperty_set :: "valueProperty \<Rightarrow> Value \<Rightarrow> Value \<Rightarrow> setEffect" where
  "valueProperty_set p this v =
     (if accessor p
      then (case setterFunc p of
              Some f \<Rightarrow> SetterCalled f \<lparr>This = this, Arguments = [v]\<rparr>
            | None \<Rightarrow> CellWritten p)
      else CellWritten (ValueProperty v (writable p) (configurable p) (enumerable p)
                          (accessor p) (getterFunc p) (setterFunc p)))"

subsection \<open>Lookup along the prototype chain\<close>

text \<open>\<^verbatim>\<open>getPropStr\<close> recurses into the prototype; \<open>None\<close> is a walk that never ends (a
  cyclic chain).\<close>

partial_function (option) getPropStr :: "heap \<Rightarrow> ref \<Rightarrow> string \<Rightarrow> Value option" where
  "getPropStr h r name =
     (let val = getOwnPropStr (h r) name
      in if val \<noteq> GoNil then Some val
         else (case prototype (h r) of
                 Some p \<Rightarrow> getPropStr h p name
               | None \<Rightarrow> Some GoNil))"

definition hasPropertyStr :: "heap \<Rightarrow> ref \<Rightarrow> string \<Rightarrow> bool option" where
  "hasPropertyStr h r name = map_option (\<lambda>v. v \<noteq> GoNil) (getPropStr h r name)"

definition getStr :: "heap \<Rightarrow> ref \<Rightarrow> string \<Rightarrow> Value outcome option" where
  "getStr h r name =
     (case getPropStr h r name of
        None \<Rightarrow> None
      | Some p \<Rightarrow>
          (case p of
             VProperty prop \<Rightarrow> Some (valueProperty_get prop (VObject (Some r)))
           | _ \<Rightarrow> Some (Return p)))"

subsection \<open>The prototype link\<close>

text \<open>Modelled from the spec: the method \<^verbatim>\<open>SameAs\<close> of \<^verbatim>\<open>*Object\<close> is defined outside
  the given sources. By the spec two object pointers are compared by identity; the
  receiver may be nil.\<close>

definition Object_SameAs :: "ref option \<Rightarrow> ref option \<Rightarrow> bool" where
  "Object_SameAs p q = (p = q)"

text \<open>The loop of \<^verbatim>\<open>setProto\<close> that looks for the object among the new prototype and its
  ancestors; \<open>None\<close> is a loop that never ends.\<close>

partial_function (option) cyclicLoop :: "heap \<Rightarrow> ref \<Rightarrow> ref option \<Rightarrow> bool option" where
  "cyclicLoop h r p =
     (case p of
        None \<Rightarrow> Some False
      | Some q \<Rightarrow>
          if Object_SameAs (Some q) (Some r) then Some True
          else cyclicLoop h r (prototype (h q)))"

text \<open>\<^verbatim>\<open>setProto\<close> returns the exception object or nil; here the heap after the call and
  the error, if any.\<close>

definition setProto :: "heap \<Rightarrow> ref \<Rightarrow> ref option \<Rightarrow> (heap \<times> error option) option" where
  "setProto h r proto =
     (let current = prototype (h r)
      in if Object_SameAs current proto then Some (h, None)
         else if \<not> extensible (h r) then Some (h, Some (TypeError NotExtensible))
         else (case cyclicLoop h r proto of
                 None \<Rightarrow> None
               | Some True \<Rightarrow> Some (h, Some (TypeError CyclicProto))
               | Some False \<Rightarrow> Some (h(r := (h r)\<lparr>prototype := proto\<rparr>), None)))"

text \<open>The new prototype \<open>p\<close>, or one of its ancestors along the prototype chain, is
  the object at \<open>r\<close>.\<close>

inductive isSelfOrAncestor :: "heap \<Rightarrow> ref \<Rightarrow> ref option \<Rightarrow> bool" for h :: heap and r :: ref where
  self: "isSelfOrAncestor h r (Some r)"
| ancestor: "isSelfOrAncestor h r (prototype (h q)) \<Longrightarrow> isSelfOrAncestor h r (Some q)"

subsection \<open>Assignment\<close>

text \<open>The last two statements of \<^verbatim>\<open>putStr\<close>: a new own property, appended to the key
  order.\<close>

definition storeNew :: "heap \<Rightarrow> ref \<Rightarrow> string \<Rightarrow> Value \<Rightarrow> heap" where
  "storeNew h r name val =
     h(r := (h r)\<lparr>vals := (vals (h r))(name \<mapsto> val), propNames := propNames (h r) @ [name]\<rparr>)"

text \<open>The value assigned to the pseudo-key: \<open>None\<close> when \<^verbatim>\<open>putStr\<close> returns without doing
  anything, the new prototype pointer otherwise.\<close>

definition protoOfValue :: "Value \<Rightarrow> ref option option" where
  "protoOfValue val =
     (if val \<noteq> VNull
      then (case val of VObject obj \<Rightarrow> Some obj | _ \<Rightarrow> None)
      else Some None)"

definition putStr :: "heap \<Rightarrow> ref \<Rightarrow> string \<Rightarrow> Value \<Rightarrow> bool \<Rightarrow> (heap \<times> unit outcome) option" where
  "putStr h r name val throw =
     (case vals (h r) name of
        Some v \<Rightarrow>
          (case v of
             VProperty prop \<Rightarrow>
               if \<not> isWritable prop then Some (h, rejected throw (ReadOnlyProperty name))
               else (case valueProperty_set prop (VObject (Some r)) val of
                       CellWritten prop' \<Rightarrow>
                         Some (h(r := (h r)\<lparr>vals := (vals (h r))(name \<mapsto> VProperty prop')\<rparr>),
                               Return ())
                     | SetterCalled f call \<Rightarrow> Some (h, Invoke f call))
           | _ \<Rightarrow> Some (h(r := (h r)\<lparr>vals := (vals (h r))(name \<mapsto> val)\<rparr>), Return ()))
      | None \<Rightarrow>
          if name = proto_key then
            (case protoOfValue val of
               None \<Rightarrow> Some (h, Return ())
             | Some proto \<Rightarrow>
                 (case setProto h r proto of
                    None \<Rightarrow> None
                  | Some (h', Some ex) \<Rightarrow> Some (h', Panic ex)
                  | Some (h', None) \<Rightarrow> Some (h', Return ())))
          else
            (case (case prototype (h r) of
                     None \<Rightarrow> Some GoNil
                   | Some proto \<Rightarrow> getPropStr h proto name) of
               None \<Rightarrow> None
             | Some pprop \<Rightarrow>
                 if pprop \<noteq> GoNil then
                   (case pprop of
                      VProperty prop \<Rightarrow>
                        if \<not> isWritable prop then Some (h, rejected throw NoMessage)
                        else if accessor prop then
                          (case valueProperty_set prop (VObject (Some r)) val of
                             CellWritten prop' \<Rightarrow> Some (h, Return ())
                           | SetterCalled f call \<Rightarrow> Some (h, Invoke f call))
                        else Some (storeNew h r name val, Return ())
                    | _ \<Rightarrow> Some (storeNew h r name val, Return ()))
                 else if \<not> extensible (h r) then Some (h, rejected throw NoMessage)
                 else Some (storeNew h r name val, Return ())))"

subsection \<open>Defining a property\<close>

text \<open>\<^verbatim>\<open>PropertyDescriptor\<close> and its flags. An attribute that the request leaves out is
  \<open>FLAG_NOT_SET\<close>, respectively the nil interface.\<close>

datatype Flag = FLAG_NOT_SET | FLAG_FALSE | FLAG_TRUE

text \<open>Modelled from the spec: the type \<^verbatim>\<open>Flag\<close> and its method \<^verbatim>\<open>Bool\<close> are declared
  outside the given sources. An attribute holds only when the request sets it to true; one
  left out counts as false.\<close>

definition Flag_Bool :: "Flag \<Rightarrow> bool" where
  "Flag_Bool f = (f = FLAG_TRUE)"

record PropertyDescriptor =
  Value :: Value
  Writable :: Flag
  Configurable :: Flag
  Enumerable :: Flag
  Getter :: Value
  Setter :: Value

text \<open>Modelled from the spec: \<^verbatim>\<open>Value.SameAs\<close> is defined outside the given sources; it
  is the strict same-value comparison, which on the values of this model is equality.\<close>

definition SameAs :: "Value \<Rightarrow> Value \<Rightarrow> bool" where
  "SameAs a b = (a = b)"

text \<open>The type assertion \<^verbatim>\<open>v.(*Object)\<close> with its second result dropped: the pointer, or
  nil when \<open>v\<close> is no object.\<close>

definition asObject :: "Value \<Rightarrow> ref option" where
  "asObject v = (case v of VObject p \<Rightarrow> p | _ \<Rightarrow> None)"

text \<open>Modelled from the spec: \<^verbatim>\<open>propGetter\<close> is defined outside the given sources. By the
  spec the supplied getter reference becomes the one of the property; a value that is no
  object leaves none.\<close>

definition propGetter :: "Value \<Rightarrow> ref option" where
  "propGetter v = asObject v"

text \<open>Modelled from the spec: \<^verbatim>\<open>propSetter\<close> is defined outside the given sources. By the
  spec the supplied setter reference becomes the one of the property; a value that is no
  object leaves none.\<close>

definition propSetter :: "Value \<Rightarrow> ref option" where
  "propSetter v = asObject v"

text \<open>The checks of \<^verbatim>\<open>_defineOwnProperty\<close> on an existing property that end at the label
  \<^verbatim>\<open>Reject\<close>, in the order of the source.\<close>

definition rejectsRedefine :: "valueProperty \<Rightarrow> PropertyDescriptor \<Rightarrow> bool" where
  "rejectsRedefine existing descr =
     (let getterObj = asObject (Getter descr);
          setterObj = asObject (Setter descr)
      in if \<not> configurable existing \<and> Configurable descr = FLAG_TRUE then True
         else if \<not> configurable existing \<and> Enumerable descr \<noteq> FLAG_NOT_SET
                 \<and> Flag_Bool (Enumerable descr) \<noteq> enumerable existing then True
         else if (accessor existing \<and> Value descr \<noteq> GoNil)
                 \<or> (\<not> accessor existing \<and> (getterObj \<noteq> None \<or> setterObj \<noteq> None))
           then \<not> configurable existing
         else if \<not> accessor existing
           then (if \<not> configurable existing
                 then (if \<not> writable existing
                       then (if Writable descr = FLAG_TRUE then True
                             else Value descr \<noteq> GoNil
                                  \<and> \<not> SameAs (Value descr) (pvalue existing))
                       else False)
                 else False)
         else (if \<not> configurable existing
               then (Getter descr \<noteq> GoNil \<and> getterFunc existing \<noteq> getterObj)
                    \<or> (Setter descr \<noteq> GoNil \<and> setterFunc existing \<noteq> setterObj)
               else False))"

text \<open>The part of \<^verbatim>\<open>_defineOwnProperty\<close> after the checks: the raw value when the request
  is a complete all-true data descriptor, the updated cell otherwise. Each \<open>let\<close> is one
  statement of the source.\<close>

definition applyDescriptor :: "valueProperty \<Rightarrow> PropertyDescriptor \<Rightarrow> Value" where
  "applyDescriptor existing descr =
     (if Writable descr = FLAG_TRUE \<and> Enumerable descr = FLAG_TRUE
         \<and> Configurable descr = FLAG_TRUE \<and> Value descr \<noteq> GoNil
      then Value descr
      else
        (let w = (if Writable descr \<noteq> FLAG_NOT_SET then Flag_Bool (Writable descr)
                  else writable existing);
             e = (if Enumerable descr \<noteq> FLAG_NOT_SET then Flag_Bool (Enumerable descr)
                  else enumerable existing);
             c = (if Configurable descr \<noteq> FLAG_NOT_SET then Flag_Bool (Configurable descr)
                  else configurable existing);
             (v1, g1, s1) = (if Value descr \<noteq> GoNil then (Value descr, None, None)
                             else (pvalue existing, getterFunc existing, setterFunc existing));
             a1 = (if Value descr \<noteq> GoNil \<or> Writable descr \<noteq> FLAG_NOT_SET then False
                   else accessor existing);
             (v2, g2, a2) = (if Getter descr \<noteq> GoNil then (GoNil, propGetter (Getter descr), True)
                             else (v1, g1, a1));
             (v3, s3, a3) = (if Setter descr \<noteq> GoNil then (GoNil, propSetter (Setter descr), True)
                             else (v2, s1, a2));
             v4 = (if \<not> a3 \<and> v3 = GoNil then VUndefined else v3)
         in VProperty (ValueProperty v4 w c e a3 g2 s3)))"

text \<open>\<^verbatim>\<open>_defineOwnProperty\<close>: the receiver gives its extensibility; the name is the one
  of the message.\<close>

definition baseObject__defineOwnProperty ::
  "baseObject \<Rightarrow> string \<Rightarrow> Value \<Rightarrow> PropertyDescriptor \<Rightarrow> bool \<Rightarrow> (Value \<times> bool) outcome" where
  "baseObject__defineOwnProperty ob name existingValue descr throw =
     (if existingValue = GoNil then
        (if \<not> extensible ob then
           (case typeErrorResult throw NoMessage of
              Some e \<Rightarrow> Panic e
            | None \<Rightarrow> Return (GoNil, False))
         else Return (applyDescriptor (ValueProperty GoNil False False False False None None) descr,
                      True))
      else
        (let existing =
               (case existingValue of
                  VProperty p \<Rightarrow> p
                | _ \<Rightarrow> ValueProperty existingValue True True True False None None)
         in if rejectsRedefine existing descr then
              (case typeErrorResult throw (CannotRedefine name) of
                 Some e \<Rightarrow> Panic e
               | None \<Rightarrow> Return (GoNil, False))
            else Return (applyDescriptor existing descr, True)))"

text \<open>\<^verbatim>\<open>defineOwnProperty\<close> for a string key.\<close>

definition defineOwnProperty ::
  "heap \<Rightarrow> ref \<Rightarrow> string \<Rightarrow> PropertyDescriptor \<Rightarrow> bool \<Rightarrow> heap \<times> bool outcome" where
  "defineOwnProperty h r name descr throw =
     (let existingVal = mapGet (vals (h r)) name
      in case baseObject__defineOwnProperty (h r) name existingVal descr throw of
           Return (v, ok) \<Rightarrow>
             if ok then
               (h(r := (h r)\<lparr>vals := (vals (h r))(name \<mapsto> v),
                              propNames := (if existingVal = GoNil then propNames (h r) @ [name]
                                            else propNames (h r))\<rparr>),
                Return True)
             else (h, Return False)
         | Panic e \<Rightarrow> (h, Panic e)
         | Invoke f call \<Rightarrow> (h, Invoke f call))"

subsection \<open>Deleting a property\<close>






subsection \<open>Enumeration\<close>

datatype enumerableFlag = ENUM_UNKNOWN | ENUM_FALSE | ENUM_TRUE

record propIterItem =
  item_name :: string
  item_value :: Value
  item_enumerable :: enumerableFlag

text \<open>The zero value \<^verbatim>\<open>propIterItem{}\<close>.\<close>

definition emptyItem :: propIterItem where
  "emptyItem = \<lparr>item_name = [], item_value = GoNil, item_enumerable = ENUM_UNKNOWN\<rparr>"

text \<open>\<^verbatim>\<open>objectPropIter\<close>: the object, the snapshot of its key order, and the cursor. An
  \<^verbatim>\<open>iterNextFunc\<close> is the method \<^verbatim>\<open>next\<close> bound to an iterator, so it is modelled by
  the iterator's state; a nil \<^verbatim>\<open>iterNextFunc\<close> is \<open>None\<close>.\<close>

record objectPropIter =
  iter_o :: ref
  iter_propNames :: "string list"
  iter_recursive :: bool
  iter_idx :: nat

text \<open>\<^verbatim>\<open>propFilterIter\<close>. \<^verbatim>\<open>wrapped\<close> is not nil whenever \<^verbatim>\<open>next\<close> can be called: it
  is set by \<^verbatim>\<open>enumerate\<close>, and \<^verbatim>\<open>next\<close> hands itself out only with a non-nil
  \<^verbatim>\<open>wrapped\<close>. \<^verbatim>\<open>seen\<close> is the set of the keys mapped to true.\<close>

record propFilterIter =
  wrapped :: objectPropIter
  filter_all :: bool
  seen :: "string set"

text \<open>The loop of \<^verbatim>\<open>objectPropIter.next\<close> over the snapshot: it reads the property from
  the object as it is now and passes over a key that is no longer there.\<close>

function ownLoop :: "heap \<Rightarrow> objectPropIter \<Rightarrow> propIterItem option \<times> objectPropIter" where
  "ownLoop h i =
     (if iter_idx i < length (iter_propNames i) then
        (let name = iter_propNames i ! iter_idx i;
             i' = i\<lparr>iter_idx := iter_idx i + 1\<rparr>;
             cell = mapGet (vals (h (iter_o i'))) name
         in if cell \<noteq> GoNil
            then (Some \<lparr>item_name = name, item_value = cell, item_enumerable = ENUM_UNKNOWN\<rparr>, i')
            else ownLoop h i')
      else (None, i))"
  by pat_completeness auto
termination
  by (relation "measure (\<lambda>(h, i). length (iter_propNames i) - iter_idx i)") auto

text \<open>\<^verbatim>\<open>_enumerate\<close>: a fresh iterator over a copy of the key order.\<close>

definition baseObject__enumerate :: "heap \<Rightarrow> ref \<Rightarrow> bool \<Rightarrow> objectPropIter" where
  "baseObject__enumerate h r recursive =
     \<lparr>iter_o = r, iter_propNames = propNames (h r), iter_recursive = recursive, iter_idx = 0\<rparr>"

text \<open>\<^verbatim>\<open>objectPropIter.next\<close>: after the own keys it continues with a fresh iterator of the
  prototype. \<open>None\<close> is a call that never returns (a cyclic prototype chain).\<close>

partial_function (option) objectPropIter_next ::
  "heap \<Rightarrow> objectPropIter \<Rightarrow> (propIterItem \<times> objectPropIter option) option" where
  "objectPropIter_next h i =
     (case ownLoop h i of
        (Some item, i') \<Rightarrow> Some (item, Some i')
      | (None, i') \<Rightarrow>
          if iter_recursive i' then
            (case prototype (h (iter_o i')) of
               Some p \<Rightarrow> objectPropIter_next h (baseObject__enumerate h p (iter_recursive i'))
             | None \<Rightarrow> Some (emptyItem, None))
          else Some (emptyItem, None))"

text \<open>The test of \<^verbatim>\<open>propFilterIter.next\<close> that passes over an item when not all
  properties are asked for.\<close>

definition notEnumerable :: "propIterItem \<Rightarrow> bool" where
  "notEnumerable item =
     (if item_enumerable item = ENUM_FALSE then True
      else if item_enumerable item = ENUM_UNKNOWN
        then (case item_value item of VProperty cell \<Rightarrow> \<not> enumerable cell | _ \<Rightarrow> False)
      else False)"

partial_function (option) propFilterIter_next ::
  "heap \<Rightarrow> propFilterIter \<Rightarrow> (propIterItem \<times> propFilterIter option) option" where
  "propFilterIter_next h i =
     (case objectPropIter_next h (wrapped i) of
        None \<Rightarrow> None
      | Some (item, w) \<Rightarrow>
          (case w of
             None \<Rightarrow> Some (emptyItem, None)
           | Some w' \<Rightarrow>
               if item_name item \<notin> seen i then
                 (if \<not> filter_all i \<and> notEnumerable item
                  then propFilterIter_next h
                         (i\<lparr>wrapped := w', seen := insert (item_name item) (seen i)\<rparr>)
                  else Some (item, Some (i\<lparr>wrapped := w', seen := insert (item_name item) (seen i)\<rparr>)))
               else propFilterIter_next h (i\<lparr>wrapped := w'\<rparr>)))"

definition baseObject_enumerate :: "heap \<Rightarrow> ref \<Rightarrow> bool \<Rightarrow> bool \<Rightarrow> propFilterIter" where
  "baseObject_enumerate h r all recursive =
     \<lparr>wrapped = baseObject__enumerate h r recursive, filter_all = all, seen = {}\<rparr>"

text \<open>The items a sequence yields, collected by the loop with which the sources consume
  one (\<^verbatim>\<open>for item, f := next(); f != nil; item, f = f()\<close> in \<^verbatim>\<open>export\<close>). The heap is the
  one the calls of \<^verbatim>\<open>next\<close> run on, which need not be the heap the sequence was
  produced on.\<close>

partial_function (option) iterateAll :: "heap \<Rightarrow> propFilterIter \<Rightarrow> propIterItem list option" where
  "iterateAll h i =
     (case propFilterIter_next h i of
        None \<Rightarrow> None
      | Some (item, f) \<Rightarrow>
          (case f of
             None \<Rightarrow> Some []
           | Some i' \<Rightarrow> Option.bind (iterateAll h i') (\<lambda>rest. Some (item # rest))))"


section \<open>Weak reference registry and weak map\<close>

text \<open>
  \<^verbatim>\<open>weakCollections\<close> is the registry of one object; its members are
  \<^verbatim>\<open>weakCollection\<close> interface values, compared by pointer, hence addresses.
\<close>

record weakCollections =
  colls :: "nat list"

fun containsColl :: "nat list \<Rightarrow> nat \<Rightarrow> bool" where
  "containsColl [] c = False"
| "containsColl (ec # rest) c = (if ec = c then True else containsColl rest c)"

definition weakCollections_add :: "weakCollections \<Rightarrow> nat \<Rightarrow> weakCollections" where
  "weakCollections_add r c =
     (if containsColl (colls r) c then r else r\<lparr>colls := colls r @ [c]\<rparr>)"

text \<open>\<^verbatim>\<open>weakMap\<close>: the mutex only serialises access and has no sequential effect.\<close>

record weakMap =
  data :: "nat \<rightharpoonup> Value"

text \<open>
  The part of the Go heap the weak map code touches: the field \<^verbatim>\<open>weakColls\<close> of every
  \<^verbatim>\<open>Object\<close>, the allocated registries by address, the next free address, the weak maps
  by address, and for every object whose implementation is a \<^verbatim>\<open>weakMapObject\<close> the
  address of its \<^verbatim>\<open>m\<close>.
\<close>

record wstate =
  weakColls :: "ref \<Rightarrow> nat option"
  registries :: "nat \<Rightarrow> weakCollections"
  nextRegistry :: nat
  weakMaps :: "nat \<Rightarrow> weakMap"
  weakMapOf :: "ref \<Rightarrow> nat option"

text \<open>\<^verbatim>\<open>weakCollections.id\<close>: the pointer value itself.\<close>

definition registry_id :: "nat \<Rightarrow> nat" where
  "registry_id r = r"

text \<open>\<^verbatim>\<open>Object.getWeakCollRefs\<close>: the registry is allocated on first use. Setting the
  finalizer has no effect until the object is reclaimed.\<close>

definition getWeakCollRefs :: "wstate \<Rightarrow> ref \<Rightarrow> wstate \<times> nat" where
  "getWeakCollRefs s key =
     (case weakColls s key of
        Some r \<Rightarrow> (s, r)
      | None \<Rightarrow>
          (let r = nextRegistry s
           in (s\<lparr>weakColls := (weakColls s)(key \<mapsto> r),
                  registries := (registries s)(r := \<lparr>colls = []\<rparr>),
                  nextRegistry := Suc r\<rparr>, r)))"

definition weakMap_set :: "wstate \<Rightarrow> nat \<Rightarrow> ref \<Rightarrow> Value \<Rightarrow> wstate" where
  "weakMap_set s wm key v =
     (let (s1, refs) = getWeakCollRefs s key;
          m = weakMaps s1 wm;
          s2 = s1\<lparr>weakMaps := (weakMaps s1)(wm := m\<lparr>data := (data m)(registry_id refs \<mapsto> v)\<rparr>)\<rparr>
      in s2\<lparr>registries := (registries s2)(refs := weakCollections_add (registries s2 refs) wm)\<rparr>)"

definition weakMap_get :: "wstate \<Rightarrow> nat \<Rightarrow> ref \<Rightarrow> Value" where
  "weakMap_get s wm key =
     (case weakColls s key of
        None \<Rightarrow> GoNil
      | Some refs \<Rightarrow> (case data (weakMaps s wm) (registry_id refs) of None \<Rightarrow> GoNil | Some v \<Rightarrow> v))"

definition weakMap_has :: "wstate \<Rightarrow> nat \<Rightarrow> ref \<Rightarrow> bool" where
  "weakMap_has s wm key =
     (case weakColls s key of
        None \<Rightarrow> False
      | Some refs \<Rightarrow> data (weakMaps s wm) (registry_id refs) \<noteq> None)"

text \<open>\<^verbatim>\<open>weakCollections.remove\<close>. The capacity of the slice is decided by Go's allocator,
  not by the sources, so it is an argument. \<open>capacity >> 2\<close> is \<open>capacity div 4\<close>.\<close>

fun indexOfColl :: "nat list \<Rightarrow> nat \<Rightarrow> nat option" where
  "indexOfColl [] c = None"
| "indexOfColl (coll # rest) c =
     (if coll = c then Some 0 else map_option Suc (indexOfColl rest c))"

definition weakCollections_remove :: "nat \<Rightarrow> weakCollections \<Rightarrow> nat \<Rightarrow> weakCollections" where
  "weakCollections_remove capacity r c =
     (if capacity > 16 \<and> capacity div 4 > length (colls r)
      then r\<lparr>colls := filter (\<lambda>coll. coll \<noteq> c) (colls r)\<rparr>
      else (case indexOfColl (colls r) c of
              None \<Rightarrow> r
            | Some i \<Rightarrow> r\<lparr>colls := butlast ((colls r)[i := last (colls r)])\<rparr>))"

definition weakMap_remove :: "nat \<Rightarrow> wstate \<Rightarrow> nat \<Rightarrow> ref \<Rightarrow> wstate \<times> bool" where
  "weakMap_remove capacity s wm key =
     (case weakColls s key of
        None \<Rightarrow> (s, False)
      | Some refs \<Rightarrow>
          (let ident = registry_id refs;
               m = weakMaps s wm;
               exists = (data m ident \<noteq> None);
               s1 = (if exists
                     then s\<lparr>weakMaps := (weakMaps s)(wm := m\<lparr>data := (data m)(ident := None)\<rparr>)\<rparr>
                     else s);
               s2 = (if exists
                     then s1\<lparr>registries := (registries s1)
                            (refs := weakCollections_remove capacity (registries s1 refs) wm)\<rparr>
                     else s1)
           in (s2, exists)))"

subsection \<open>The methods of WeakMap.prototype\<close>

text \<open>\<^verbatim>\<open>FunctionCall.Argument\<close>: a missing argument reads as undefined.\<close>

definition Argument :: "FunctionCall \<Rightarrow> nat \<Rightarrow> Value" where
  "Argument f idx = (if idx < length (Arguments f) then Arguments f ! idx else VUndefined)"

text \<open>Modelled from the spec: \<^verbatim>\<open>Runtime.toObject\<close> is defined outside the given sources.
  The spec has a key or receiver that is not an object raise a type error (its Type
  mismatch); an object is returned as it is. Both callers dereference the result at once,
  so a nil \<^verbatim>\<open>*Object\<close> is the nil pointer panic here.\<close>

definition toObject :: "Value \<Rightarrow> error + ref" where
  "toObject v =
     (case v of
        VObject (Some r) \<Rightarrow> Inr r
      | VObject None \<Rightarrow> Inl NilPointerDereference
      | _ \<Rightarrow> Inl (TypeError NotAnObject))"

text \<open>The type assertion \<^verbatim>\<open>call.Argument(0).(*Object)\<close> of get, has and delete: \<open>None\<close>
  when the assertion fails, the pointer otherwise.\<close>

definition assertObject :: "Value \<Rightarrow> ref option option" where
  "assertObject v = (case v of VObject p \<Rightarrow> Some p | _ \<Rightarrow> None)"

definition weakMapReceiver :: "wstate \<Rightarrow> Value \<Rightarrow> string \<Rightarrow> error + nat" where
  "weakMapReceiver s this method =
     (case toObject this of
        Inl e \<Rightarrow> Inl e
      | Inr thisObj \<Rightarrow>
          (case weakMapOf s thisObj of
             None \<Rightarrow> Inl (TypeError (IncompatibleReceiver method))
           | Some wm \<Rightarrow> Inr wm))"

text \<open>The methods return the state together with either the panic or the result; a panic
  keeps what was written before it.\<close>

definition weakMapProto_set :: "wstate \<Rightarrow> FunctionCall \<Rightarrow> wstate \<times> Value outcome" where
  "weakMapProto_set s call =
     (case weakMapReceiver s (This call) ''set'' of
        Inl e \<Rightarrow> (s, Panic e)
      | Inr wm \<Rightarrow>
          (case toObject (Argument call 0) of
             Inl e \<Rightarrow> (s, Panic e)
           | Inr key \<Rightarrow> (weakMap_set s wm key (Argument call 1), Return (This call))))"

definition weakMapProto_get :: "wstate \<Rightarrow> FunctionCall \<Rightarrow> wstate \<times> Value outcome" where
  "weakMapProto_get s call =
     (case weakMapReceiver s (This call) ''get'' of
        Inl e \<Rightarrow> (s, Panic e)
      | Inr wm \<Rightarrow>
          (case assertObject (Argument call 0) of
             None \<Rightarrow> (s, Return VUndefined)
           | Some None \<Rightarrow> (s, Panic NilPointerDereference)
           | Some (Some key) \<Rightarrow>
               (let res = weakMap_get s wm key
                in if res = GoNil then (s, Return VUndefined) else (s, Return res))))"

definition weakMapProto_delete ::
  "nat \<Rightarrow> wstate \<Rightarrow> FunctionCall \<Rightarrow> wstate \<times> Value outcome" where
  "weakMapProto_delete capacity s call =
     (case weakMapReceiver s (This call) ''delete'' of
        Inl e \<Rightarrow> (s, Panic e)
      | Inr wm \<Rightarrow>
          (case assertObject (Argument call 0) of
             None \<Rightarrow> (s, Return (VBool False))
           | Some None \<Rightarrow> (s, Panic NilPointerDereference)
           | Some (Some key) \<Rightarrow>
               (case weakMap_remove capacity s wm key of
                  (s', removed) \<Rightarrow>
                    if removed then (s', Return (VBool True)) else (s', Return (VBool False)))))"

definition weakMapProto_has :: "wstate \<Rightarrow> FunctionCall \<Rightarrow> wstate \<times> Value outcome" where
  "weakMapProto_has s call =
     (case weakMapReceiver s (This call) ''has'' of
        Inl e \<Rightarrow> (s, Panic e)
      | Inr wm \<Rightarrow>
          (case assertObject (Argument call 0) of
             None \<Rightarrow> (s, Return (VBool False))
           | Some None \<Rightarrow> (s, Panic NilPointerDereference)
           | Some (Some key) \<Rightarrow>
               if weakMap_has s wm key then (s, Return (VBool True)) else (s, Return (VBool False))))"

subsection \<open>Example states\<close>

text \<open>A weak map at address 0 that belongs to the object at address 5, and no registry yet.\<close>

definition exampleWeakState :: wstate where
  "exampleWeakState =
     \<lparr>weakColls = (\<lambda>_. None),
      registries = (\<lambda>_. \<lparr>colls = []\<rparr>),
      nextRegistry = 0,
      weakMaps = (\<lambda>_. \<lparr>data = Map.empty\<rparr>),
      weakMapOf = (\<lambda>_. None)(5 := Some 0)\<rparr>"

text \<open>Three plain extensible objects with the prototype chain 0 \<rightarrow> 1 \<rightarrow> 2 \<rightarrow> null; every
  other address holds an empty object without prototype.\<close>

definition emptyObject :: baseObject where
  "emptyObject =
     \<lparr>class_name = ''Object'', prototype = None, extensible = True,
      vals = Map.empty, propNames = []\<rparr>"

definition chainHeap :: heap where
  "chainHeap =
     (\<lambda>_. emptyObject)
       (0 := emptyObject\<lparr>prototype := Some 1\<rparr>, 1 := emptyObject\<lparr>prototype := Some 2\<rparr>)"

text \<open>An object with one own property \<open>x\<close>: a data property holding 1 that is neither
  configurable nor writable, but enumerable.\<close>

definition fixedCell :: valueProperty where
  "fixedCell = ValueProperty (VInt 1) False False True False None None"

definition fixedHeap :: heap where
  "fixedHeap =
     (\<lambda>_. emptyObject)
       (0 := emptyObject\<lparr>vals := [''x'' \<mapsto> VProperty fixedCell], propNames := [''x'']\<rparr>)"

definition valueOnly :: "Value \<Rightarrow> PropertyDescriptor" where
  "valueOnly v =
     \<lparr>Value = v, Writable = FLAG_NOT_SET, Configurable = FLAG_NOT_SET,
      Enumerable = FLAG_NOT_SET, Getter = GoNil, Setter = GoNil\<rparr>"

text \<open>Object 0 is not extensible, has no own property and has object 1 as its prototype;
  object 1 has the plain property \<open>x\<close> holding 1.\<close>

definition sealedChildHeap :: heap where
  "sealedChildHeap =
     (\<lambda>_. emptyObject)
       (0 := emptyObject\<lparr>prototype := Some 1, extensible := False\<rparr>,
        1 := emptyObject\<lparr>vals := [''x'' \<mapsto> VInt 1], propNames := [''x'']\<rparr>)"

text \<open>Object 0 is not extensible, has no own property and has object 1 as its prototype;
  object 1 holds \<open>x\<close> as an accessor whose setter is the function object 9.\<close>

definition setterCell :: valueProperty where
  "setterCell = ValueProperty GoNil False True True True None (Some 9)"

definition sealedSetterHeap :: heap where
  "sealedSetterHeap =
     (\<lambda>_. emptyObject)
       (0 := emptyObject\<lparr>prototype := Some 1, extensible := False\<rparr>,
        1 := emptyObject\<lparr>vals := [''x'' \<mapsto> VProperty setterCell], propNames := [''x'']\<rparr>)"

text \<open>Object 0 is extensible and has object 1 as its prototype; object 1 holds \<open>x\<close> as a
  data property that is not writable.\<close>

definition readOnlyProtoHeap :: heap where
  "readOnlyProtoHeap =
     (\<lambda>_. emptyObject)
       (0 := emptyObject\<lparr>prototype := Some 1\<rparr>,
        1 := emptyObject\<lparr>vals := [''x'' \<mapsto> VProperty fixedCell], propNames := [''x'']\<rparr>)"

subsection \<open>The items of an enumeration as lists\<close>

text \<open>The items that the loop of \<^verbatim>\<open>objectPropIter.next\<close> yields for a list of keys read on
  an object: one for every key that the object holds now, in the order of the list.\<close>

definition ownItems :: "baseObject \<Rightarrow> string list \<Rightarrow> propIterItem list" where
  "ownItems ob names =
     map (\<lambda>n. \<lparr>item_name = n, item_value = mapGet (vals ob) n, item_enumerable = ENUM_UNKNOWN\<rparr>)
       (filter (\<lambda>n. mapGet (vals ob) n \<noteq> GoNil) names)"

text \<open>The prototype chain that starts at \<open>p\<close> is finite and consists of the objects
  \<open>rs\<close>, nearest first.\<close>

inductive protoChain :: "heap \<Rightarrow> ref option \<Rightarrow> ref list \<Rightarrow> bool" for h :: heap where
  chain_end: "protoChain h None []"
| chain_step: "protoChain h (prototype (h r)) rs \<Longrightarrow> protoChain h (Some r) (r # rs)"

text \<open>What \<^verbatim>\<open>propFilterIter.next\<close> does to a list of items of the wrapped iterator, with
  \<open>S\<close> the keys seen so far: an item whose key was seen is dropped; otherwise its key
  counts as seen, and the item is passed over when it is not enumerable and not all
  properties are asked for.\<close>

definition passedOver :: "bool \<Rightarrow> propIterItem \<Rightarrow> bool" where
  "passedOver all item = (\<not> all \<and> notEnumerable item)"

fun filterItems :: "bool \<Rightarrow> string set \<Rightarrow> propIterItem list \<Rightarrow> propIterItem list" where
  "filterItems all S [] = []"
| "filterItems all S (item # items) =
     (if item_name item \<in> S then filterItems all S items
      else if passedOver all item then filterItems all (insert (item_name item) S) items
      else item # filterItems all (insert (item_name item) S) items)"

text \<open>The item of one own key, and whether an enumeration of the object shows the key.\<close>

definition ownItem :: "baseObject \<Rightarrow> string \<Rightarrow> propIterItem" where
  "ownItem ob n =
     \<lparr>item_name = n, item_value = mapGet (vals ob) n, item_enumerable = ENUM_UNKNOWN\<rparr>"

definition visibleOwn :: "bool \<Rightarrow> baseObject \<Rightarrow> string \<Rightarrow> bool" where
  "visibleOwn all ob n =
     (mapGet (vals ob) n \<noteq> GoNil \<and> \<not> passedOver all (ownItem ob n))"


text \<open>Object 0 holds \<open>a\<close>, the non-enumerable \<open>b\<close> and \<open>c\<close>, inserted in this order;
  its prototype, object 1, holds \<open>c\<close> and \<open>d\<close>.\<close>

definition hiddenCell :: valueProperty where
  "hiddenCell = ValueProperty (VInt 2) True True False False None None"

definition enumHeap :: heap where
  "enumHeap =
     (\<lambda>_. emptyObject)
       (0 := emptyObject\<lparr>prototype := Some 1,
              vals := [''a'' \<mapsto> VInt 1, ''b'' \<mapsto> VProperty hiddenCell, ''c'' \<mapsto> VInt 3],
              propNames := [''a'', ''b'', ''c'']\<rparr>,
        1 := emptyObject\<lparr>vals := [''c'' \<mapsto> VInt 30, ''d'' \<mapsto> VInt 4],
              propNames := [''c'', ''d'']\<rparr>)"

text \<open>The items an \<^verbatim>\<open>objectPropIter\<close> has still to yield: those of the rest of its
  snapshot, then the own items of the objects \<open>rs\<close> of the prototype chain, each with
  the key order it has when it is reached. \<open>chainOf\<close> says that \<open>rs\<close> are the objects
  the iterator goes on to: the prototype chain when it is recursive, none otherwise.\<close>

definition remaining :: "heap \<Rightarrow> objectPropIter \<Rightarrow> ref list \<Rightarrow> propIterItem list" where
  "remaining h i rs =
     ownItems (h (iter_o i)) (drop (iter_idx i) (iter_propNames i))
     @ concat (map (\<lambda>r. ownItems (h r) (propNames (h r))) rs)"

definition chainOf :: "heap \<Rightarrow> objectPropIter \<Rightarrow> ref list \<Rightarrow> bool" where
  "chainOf h i rs =
     (if iter_recursive i then protoChain h (prototype (h (iter_o i))) rs else rs = [])"







section \<open>Theorems\<close>

lemma containsColl_iff: "containsColl cs c \<longleftrightarrow> c \<in> set cs"
  by (induction cs) auto

lemma rejectsRedefine_fixed_data:
  assumes "\<not> configurable p" "\<not> writable p" "\<not> accessor p"
  shows "rejectsRedefine p descr \<longleftrightarrow>
           Configurable descr = FLAG_TRUE
           \<or> (Enumerable descr \<noteq> FLAG_NOT_SET \<and> Flag_Bool (Enumerable descr) \<noteq> enumerable p)
           \<or> asObject (Getter descr) \<noteq> None \<or> asObject (Setter descr) \<noteq> None
           \<or> Writable descr = FLAG_TRUE
           \<or> (Value descr \<noteq> GoNil \<and> \<not> SameAs (Value descr) (pvalue p))"
  using assms by (auto simp: rejectsRedefine_def Let_def)

lemma applyDescriptor_same_value:
  assumes "\<not> configurable p" "\<not> writable p" "\<not> accessor p"
    and "Value descr \<noteq> GoNil" "SameAs (Value descr) (pvalue p)"
    and "Writable descr \<noteq> FLAG_TRUE" "Configurable descr \<noteq> FLAG_TRUE"
    and "Enumerable descr = FLAG_NOT_SET \<or> Flag_Bool (Enumerable descr) = enumerable p"
    and "Getter descr = GoNil" "Setter descr = GoNil"
  shows "applyDescriptor p descr =
           VProperty (ValueProperty (pvalue p) False False (enumerable p) False None None)"
  using assms by (auto simp: applyDescriptor_def Let_def SameAs_def Flag_Bool_def)

text \<open>
  C3. Let the object have an own data property under the name that is neither configurable
  nor writable. A request that supplies a value identical to the one held and changes no
  attribute (writable and configurable not set to true, enumerable left out or as it is,
  no getter and no setter) succeeds, and the property keeps its value and attributes. A
  request that supplies a value that is not identical, or sets writable to true, fails: it
  returns false, or raises the type error when \<open>throw\<close> is set, and the heap is as before.
\<close>

theorem defineOwnProperty_fixed_data:
  assumes "vals (h r) name = Some (VProperty p)"
    and "\<not> configurable p" "\<not> writable p" "\<not> accessor p"
  shows "(Value descr \<noteq> GoNil \<and> SameAs (Value descr) (pvalue p)
          \<and> Writable descr \<noteq> FLAG_TRUE \<and> Configurable descr \<noteq> FLAG_TRUE
          \<and> (Enumerable descr = FLAG_NOT_SET \<or> Flag_Bool (Enumerable descr) = enumerable p)
          \<and> Getter descr = GoNil \<and> Setter descr = GoNil
          \<longrightarrow> defineOwnProperty h r name descr throw =
                (h(r := (h r)\<lparr>vals := (vals (h r))(name \<mapsto>
                     VProperty (ValueProperty (pvalue p) False False (enumerable p) False None None))\<rparr>),
                 Return True))
       \<and> ((Value descr \<noteq> GoNil \<and> \<not> SameAs (Value descr) (pvalue p)) \<or> Writable descr = FLAG_TRUE
          \<longrightarrow> defineOwnProperty h r name descr throw =
                (h, if throw then Panic (TypeError (CannotRedefine name)) else Return False))"
proof (intro conjI impI)
  assume ok: "Value descr \<noteq> GoNil \<and> SameAs (Value descr) (pvalue p)
          \<and> Writable descr \<noteq> FLAG_TRUE \<and> Configurable descr \<noteq> FLAG_TRUE
          \<and> (Enumerable descr = FLAG_NOT_SET \<or> Flag_Bool (Enumerable descr) = enumerable p)
          \<and> Getter descr = GoNil \<and> Setter descr = GoNil"
  then have norej: "\<not> rejectsRedefine p descr"
    using assms(2-4) by (auto simp: rejectsRedefine_fixed_data asObject_def)
  have app: "applyDescriptor p descr =
           VProperty (ValueProperty (pvalue p) False False (enumerable p) False None None)"
    using assms(2-4) ok by (intro applyDescriptor_same_value) simp_all
  show "defineOwnProperty h r name descr throw =
          (h(r := (h r)\<lparr>vals := (vals (h r))(name \<mapsto>
               VProperty (ValueProperty (pvalue p) False False (enumerable p) False None None))\<rparr>),
           Return True)"
    using assms(1) norej app
    by (simp add: defineOwnProperty_def baseObject__defineOwnProperty_def mapGet_def Let_def)
next
  assume "(Value descr \<noteq> GoNil \<and> \<not> SameAs (Value descr) (pvalue p)) \<or> Writable descr = FLAG_TRUE"
  then have "rejectsRedefine p descr"
    using assms(2-4) by (auto simp: rejectsRedefine_fixed_data)
  then show "defineOwnProperty h r name descr throw =
          (h, if throw then Panic (TypeError (CannotRedefine name)) else Return False)"
    using assms(1)
    by (simp add: defineOwnProperty_def baseObject__defineOwnProperty_def mapGet_def Let_def
        typeErrorResult_def)
qed

theorem defineOwnProperty_fixed_data_witness:
  "vals (fixedHeap 0) ''x'' = Some (VProperty fixedCell)
   \<and> \<not> configurable fixedCell \<and> \<not> writable fixedCell \<and> \<not> accessor fixedCell
   \<and> defineOwnProperty fixedHeap 0 ''x'' (valueOnly (VInt 1)) True = (fixedHeap, Return True)
   \<and> defineOwnProperty fixedHeap 0 ''x'' (valueOnly (VInt 2)) False = (fixedHeap, Return False)
   \<and> defineOwnProperty fixedHeap 0 ''x'' (valueOnly (VInt 2)) True
       = (fixedHeap, Panic (TypeError (CannotRedefine ''x'')))
   \<and> defineOwnProperty fixedHeap 0 ''x'' ((valueOnly GoNil)\<lparr>Writable := FLAG_TRUE\<rparr>) False
       = (fixedHeap, Return False)"
proof -
  have a: "vals (fixedHeap 0) ''x'' = Some (VProperty fixedCell)"
    by (simp add: fixedHeap_def)
  have b: "\<not> configurable fixedCell" "\<not> writable fixedCell" "\<not> accessor fixedCell"
    by (simp_all add: fixedCell_def)
  have same: "fixedHeap(0 := (fixedHeap 0)\<lparr>vals := (vals (fixedHeap 0))(''x'' \<mapsto>
        VProperty (ValueProperty (pvalue fixedCell) False False (enumerable fixedCell)
          False None None))\<rparr>) = fixedHeap"
    by (rule ext) (simp add: fixedHeap_def fixedCell_def emptyObject_def)
  show ?thesis
    using a b same
      defineOwnProperty_fixed_data [where h = fixedHeap and r = 0 and descr = "valueOnly (VInt 1)"
        and throw = True, OF a b]
      defineOwnProperty_fixed_data [where h = fixedHeap and r = 0 and descr = "valueOnly (VInt 2)"
        and throw = False, OF a b]
      defineOwnProperty_fixed_data [where h = fixedHeap and r = 0 and descr = "valueOnly (VInt 2)"
        and throw = True, OF a b]
      defineOwnProperty_fixed_data [where h = fixedHeap and r = 0
        and descr = "(valueOnly GoNil)\<lparr>Writable := FLAG_TRUE\<rparr>" and throw = False, OF a b]
    by (simp add: valueOnly_def SameAs_def fixedCell_def)
qed


lemma cyclicLoop_finds:
  "isSelfOrAncestor h r p \<Longrightarrow> cyclicLoop h r p = Some True"
proof (induction rule: isSelfOrAncestor.induct)
  case self
  show ?case by (subst cyclicLoop.simps) (simp add: Object_SameAs_def)
next
  case (ancestor q)
  then show ?case by (subst cyclicLoop.simps) (simp add: Object_SameAs_def)
qed

text \<open>
  C4. \<open>setProto\<close> succeeds without any change when the new prototype is the current one;
  otherwise it fails with the extensibility violation when the object is not extensible,
  and otherwise with the cyclic prototype violation when the new prototype or one of its
  ancestors is the object itself; whenever it fails, the heap, and so the prototype link,
  is as before.
\<close>

theorem setProto_noop_and_failures:
  "(prototype (h r) = proto \<longrightarrow> setProto h r proto = Some (h, None))
   \<and> (prototype (h r) \<noteq> proto \<and> \<not> extensible (h r) \<longrightarrow>
        setProto h r proto = Some (h, Some (TypeError NotExtensible)))
   \<and> (prototype (h r) \<noteq> proto \<and> extensible (h r) \<and> isSelfOrAncestor h r proto \<longrightarrow>
        setProto h r proto = Some (h, Some (TypeError CyclicProto)))
   \<and> (\<forall>h' e. setProto h r proto = Some (h', Some e) \<longrightarrow>
        h' = h \<and> prototype (h' r) = prototype (h r))"
proof (intro conjI impI allI)
  assume "prototype (h r) = proto"
  then show "setProto h r proto = Some (h, None)" by (simp add: setProto_def Object_SameAs_def)
next
  assume "prototype (h r) \<noteq> proto \<and> \<not> extensible (h r)"
  then show "setProto h r proto = Some (h, Some (TypeError NotExtensible))"
    by (simp add: setProto_def Object_SameAs_def)
next
  assume "prototype (h r) \<noteq> proto \<and> extensible (h r) \<and> isSelfOrAncestor h r proto"
  then show "setProto h r proto = Some (h, Some (TypeError CyclicProto))"
    by (simp add: setProto_def Object_SameAs_def cyclicLoop_finds)
next
  fix h' e
  assume "setProto h r proto = Some (h', Some e)"
  then have "h' = h"
    by (auto simp: setProto_def Object_SameAs_def Let_def split: if_splits option.splits bool.splits)
  then show "h' = h" and "prototype (h' r) = prototype (h r)" by simp_all
qed

text \<open>The remaining case of \<open>setProto\<close>: when the chain of the new prototype is finite and
  does not pass through the object, an extensible object gets the new link.\<close>

lemma cyclicLoop_absent:
  "protoChain h p rs \<Longrightarrow> r \<notin> set rs \<Longrightarrow> cyclicLoop h r p = Some False"
proof (induction rule: protoChain.induct)
  case chain_end
  show ?case by (subst cyclicLoop.simps) simp
next
  case (chain_step q rs)
  then show ?case by (subst cyclicLoop.simps) (simp add: Object_SameAs_def)
qed

lemma setProto_commits:
  assumes "prototype (h r) \<noteq> proto" "extensible (h r)"
    and "protoChain h proto rs" "r \<notin> set rs"
  shows "setProto h r proto = Some (h(r := (h r)\<lparr>prototype := proto\<rparr>), None)"
  using assms(1,2) cyclicLoop_absent [OF assms(3,4)]
  by (simp add: setProto_def Object_SameAs_def)

lemma chainHeap_reaches: "isSelfOrAncestor chainHeap 2 (Some 0)"
proof -
  have "isSelfOrAncestor chainHeap 2 (prototype (chainHeap 1))"
    by (simp add: chainHeap_def emptyObject_def isSelfOrAncestor.self)
  then have "isSelfOrAncestor chainHeap 2 (Some 1)"
    by (rule isSelfOrAncestor.ancestor)
  then have "isSelfOrAncestor chainHeap 2 (prototype (chainHeap 0))"
    by (simp add: chainHeap_def emptyObject_def)
  then show ?thesis by (rule isSelfOrAncestor.ancestor)
qed

theorem setProto_noop_and_failures_witness:
  "setProto chainHeap 0 (Some 1) = Some (chainHeap, None)
   \<and> setProto (chainHeap(2 := (chainHeap 2)\<lparr>extensible := False\<rparr>)) 2 (Some 0)
       = Some (chainHeap(2 := (chainHeap 2)\<lparr>extensible := False\<rparr>), Some (TypeError NotExtensible))
   \<and> isSelfOrAncestor chainHeap 0 (Some 0)
   \<and> setProto chainHeap 0 (Some 0) = Some (chainHeap, Some (TypeError CyclicProto))
   \<and> isSelfOrAncestor chainHeap 2 (Some 0)
   \<and> setProto chainHeap 2 (Some 0) = Some (chainHeap, Some (TypeError CyclicProto))
   \<and> prototype (chainHeap 2) = None"
  using setProto_noop_and_failures [of chainHeap 0 "Some 1"]
    setProto_noop_and_failures [of "chainHeap(2 := (chainHeap 2)\<lparr>extensible := False\<rparr>)" 2 "Some 0"]
    setProto_noop_and_failures [of chainHeap 0 "Some 0"]
    setProto_noop_and_failures [of chainHeap 2 "Some 0"]
    chainHeap_reaches isSelfOrAncestor.self [of chainHeap 0]
  by (simp add: chainHeap_def emptyObject_def)


subsection \<open>Assignment and lookup\<close>

lemma getPropStr_own:
  "getOwnPropStr (h r) name = v \<Longrightarrow> v \<noteq> GoNil \<Longrightarrow> getPropStr h r name = Some v"
  by (subst getPropStr.simps) simp

lemma getPropStr_inherit:
  "getOwnPropStr (h r) name = GoNil \<Longrightarrow> prototype (h r) = Some p \<Longrightarrow>
   getPropStr h r name = getPropStr h p name"
  by (subst getPropStr.simps) simp

lemma getPropStr_end:
  "getOwnPropStr (h r) name = GoNil \<Longrightarrow> prototype (h r) = None \<Longrightarrow>
   getPropStr h r name = Some GoNil"
  by (subst getPropStr.simps) simp

lemma getOwnPropStr_stored:
  "vals ob name = Some v \<Longrightarrow> v \<noteq> GoNil \<Longrightarrow> getOwnPropStr ob name = v"
  by (simp add: getOwnPropStr_def mapGet_def)

lemma getOwnPropStr_absent:
  "vals ob name = None \<Longrightarrow> name \<noteq> proto_key \<Longrightarrow> getOwnPropStr ob name = GoNil"
  by (simp add: getOwnPropStr_def mapGet_def)

lemma getStr_stored_plain:
  assumes "vals (h r) name = Some v" "v \<noteq> GoNil" "\<forall>p. v \<noteq> VProperty p"
  shows "getStr h r name = Some (Return v)"
proof -
  have "getPropStr h r name = Some v"
    using assms(1,2) by (intro getPropStr_own getOwnPropStr_stored)
  then show ?thesis using assms(3) by (cases v) (simp_all add: getStr_def)
qed

lemma getStr_stored_data_cell:
  assumes "vals (h r) name = Some (VProperty p)" "\<not> accessor p"
  shows "getStr h r name = Some (Return (pvalue p))"
proof -
  have "getPropStr h r name = Some (VProperty p)"
    using assms(1) by (intro getPropStr_own getOwnPropStr_stored) simp_all
  then show ?thesis using assms(2) by (simp add: getStr_def valueProperty_get_def)
qed

lemma sealedChild_put:
  "putStr sealedChildHeap 0 ''x'' (VInt 2) True
     = Some (storeNew sealedChildHeap 0 ''x'' (VInt 2), Return ())"
proof -
  have own: "getOwnPropStr (sealedChildHeap 1) ''x'' = VInt 1"
    by (simp add: sealedChildHeap_def emptyObject_def getOwnPropStr_def mapGet_def)
  have "getPropStr sealedChildHeap 1 ''x'' = Some (VInt 1)"
    using own by (rule getPropStr_own) simp
  then show ?thesis
    by (simp add: putStr_def sealedChildHeap_def emptyObject_def proto_key_def)
qed

lemma sealedSetter_found:
  "getPropStr sealedSetterHeap 1 ''x'' = Some (VProperty setterCell)"
  by (rule getPropStr_own)
    (simp_all add: sealedSetterHeap_def emptyObject_def getOwnPropStr_def mapGet_def)

text \<open>C2 as stated fails. Object 0 is not extensible and has no own property \<open>x\<close>. When
  its prototype holds \<open>x\<close> as an accessor with a setter, the assignment with \<open>throw\<close> set
  does not reject: it ends by calling the setter. When its prototype holds \<open>x\<close> as a
  plain data property, the assignment with \<open>throw\<close> set raises nothing and creates the
  own property \<open>x\<close> on object 0.\<close>

theorem putStr_not_extensible_counterexample:
  "\<not> extensible (sealedSetterHeap 0)
   \<and> vals (sealedSetterHeap 0) ''x'' = None
   \<and> putStr sealedSetterHeap 0 ''x'' (VInt 2) True
       = Some (sealedSetterHeap, Invoke 9 \<lparr>This = VObject (Some 0), Arguments = [VInt 2]\<rparr>)
   \<and> \<not> extensible (sealedChildHeap 0)
   \<and> vals (sealedChildHeap 0) ''x'' = None
   \<and> putStr sealedChildHeap 0 ''x'' (VInt 2) True
       = Some (storeNew sealedChildHeap 0 ''x'' (VInt 2), Return ())
   \<and> vals (storeNew sealedChildHeap 0 ''x'' (VInt 2) 0) ''x'' = Some (VInt 2)
   \<and> propNames (storeNew sealedChildHeap 0 ''x'' (VInt 2) 0) = [''x'']"
proof -
  have "putStr sealedSetterHeap 0 ''x'' (VInt 2) True
       = Some (sealedSetterHeap, Invoke 9 \<lparr>This = VObject (Some 0), Arguments = [VInt 2]\<rparr>)"
    using sealedSetter_found
    by (simp add: putStr_def sealedSetterHeap_def emptyObject_def proto_key_def
        isWritable_def valueProperty_set_def setterCell_def)
  then show ?thesis
    using sealedChild_put
    by (simp add: sealedSetterHeap_def sealedChildHeap_def emptyObject_def storeNew_def)
qed

lemma cyclicLoop_null: "cyclicLoop h r None = Some False"
  by (subst cyclicLoop.simps) simp

text \<open>C1 as stated fails at the pseudo-key. Assigning null to it on object 0 of the chain
  0 \<rightarrow> 1 \<rightarrow> 2 succeeds and clears the prototype link, and a following get returns the nil
  object pointer, which is not null. Assigning the number 5 returns without raising or
  writing, and a following get returns the prototype, object 1.\<close>

theorem putStr_proto_key_counterexample:
  "putStr chainHeap 0 proto_key VNull False
     = Some (chainHeap(0 := (chainHeap 0)\<lparr>prototype := None\<rparr>), Return ())
   \<and> putStr chainHeap 0 proto_key VNull True
     = Some (chainHeap(0 := (chainHeap 0)\<lparr>prototype := None\<rparr>), Return ())
   \<and> getStr (chainHeap(0 := (chainHeap 0)\<lparr>prototype := None\<rparr>)) 0 proto_key
     = Some (Return (VObject None))
   \<and> VObject None \<noteq> VNull
   \<and> putStr chainHeap 0 proto_key (VInt 5) False = Some (chainHeap, Return ())
   \<and> putStr chainHeap 0 proto_key (VInt 5) True = Some (chainHeap, Return ())
   \<and> getStr chainHeap 0 proto_key = Some (Return (VObject (Some 1)))
   \<and> VObject (Some 1) \<noteq> VInt 5"
proof -
  have none: "vals (chainHeap 0) proto_key = None"
    by (simp add: chainHeap_def emptyObject_def)
  have sp: "setProto chainHeap 0 None
              = Some (chainHeap(0 := (chainHeap 0)\<lparr>prototype := None\<rparr>), None)"
    by (simp add: setProto_def Object_SameAs_def cyclicLoop_null chainHeap_def emptyObject_def)
  have put_null: "putStr chainHeap 0 proto_key VNull throw
              = Some (chainHeap(0 := (chainHeap 0)\<lparr>prototype := None\<rparr>), Return ())" for throw
    using none sp by (simp add: putStr_def protoOfValue_def)
  have put_five: "putStr chainHeap 0 proto_key (VInt 5) throw = Some (chainHeap, Return ())"
    for throw
    using none by (simp add: putStr_def protoOfValue_def)
  have "getOwnPropStr ((chainHeap(0 := (chainHeap 0)\<lparr>prototype := None\<rparr>)) 0) proto_key
          = VObject None"
    using none by (simp add: getOwnPropStr_def mapGet_def)
  then have "getPropStr (chainHeap(0 := (chainHeap 0)\<lparr>prototype := None\<rparr>)) 0 proto_key
          = Some (VObject None)"
    by (rule getPropStr_own) simp
  then have get_null: "getStr (chainHeap(0 := (chainHeap 0)\<lparr>prototype := None\<rparr>)) 0 proto_key
          = Some (Return (VObject None))"
    by (simp add: getStr_def)
  have "getOwnPropStr (chainHeap 0) proto_key = VObject (Some 1)"
    using none by (simp add: getOwnPropStr_def mapGet_def chainHeap_def emptyObject_def)
  then have "getPropStr chainHeap 0 proto_key = Some (VObject (Some 1))"
    by (rule getPropStr_own) simp
  then have get_five: "getStr chainHeap 0 proto_key = Some (Return (VObject (Some 1)))"
    by (simp add: getStr_def)
  show ?thesis
    using put_null put_five get_null get_five by simp
qed

lemma putStr_own_cell:
  assumes "vals (h r) name = Some (VProperty prop)"
  shows "putStr h r name v throw =
           (if \<not> isWritable prop then Some (h, rejected throw (ReadOnlyProperty name))
            else (case valueProperty_set prop (VObject (Some r)) v of
                    CellWritten prop' \<Rightarrow>
                      Some (h(r := (h r)\<lparr>vals := (vals (h r))(name \<mapsto> VProperty prop')\<rparr>),
                            Return ())
                  | SetterCalled f call \<Rightarrow> Some (h, Invoke f call)))"
  using assms by (simp add: putStr_def)

lemma putStr_own_plain:
  assumes "vals (h r) name = Some old" "\<forall>p. old \<noteq> VProperty p"
  shows "putStr h r name v throw =
           Some (h(r := (h r)\<lparr>vals := (vals (h r))(name \<mapsto> v)\<rparr>), Return ())"
  using assms by (cases old) (simp_all add: putStr_def)

text \<open>The value the assignment finds on the prototype chain when the object has no own
  property: nil without a prototype.\<close>

lemma putStr_absent:
  assumes "vals (h r) name = None" "name \<noteq> proto_key"
  shows "putStr h r name v throw =
           (case (case prototype (h r) of
                    None \<Rightarrow> Some GoNil
                  | Some proto \<Rightarrow> getPropStr h proto name) of
              None \<Rightarrow> None
            | Some pprop \<Rightarrow>
                if pprop \<noteq> GoNil then
                  (case pprop of
                     VProperty prop \<Rightarrow>
                       if \<not> isWritable prop then Some (h, rejected throw NoMessage)
                       else if accessor prop then
                         (case valueProperty_set prop (VObject (Some r)) v of
                            CellWritten prop' \<Rightarrow> Some (h, Return ())
                          | SetterCalled f call \<Rightarrow> Some (h, Invoke f call))
                       else Some (storeNew h r name v, Return ())
                   | _ \<Rightarrow> Some (storeNew h r name v, Return ()))
                else if \<not> extensible (h r) then Some (h, rejected throw NoMessage)
                else Some (storeNew h r name v, Return ()))"
  using assms by (simp add: putStr_def)

lemma rejected_True: "rejected True msg = Panic (TypeError msg)"
  by (simp add: rejected_def typeErrorResult_def)

lemma rejected_False: "rejected False msg = Return ()"
  by (simp add: rejected_def typeErrorResult_def)

lemma getStr_storeNew:
  assumes "v \<noteq> GoNil" "\<forall>p. v \<noteq> VProperty p"
  shows "getStr (storeNew h r name v) r name = Some (Return v)"
  using assms by (intro getStr_stored_plain) (simp_all add: storeNew_def)

lemma putStr_stores_then_getStr:
  assumes key: "name \<noteq> proto_key"
    and val: "v \<noteq> GoNil" "\<forall>p. v \<noteq> VProperty p"
    and put: "putStr h r name v True = Some (h', Return ())"
  shows "putStr h r name v False = Some (h', Return ()) \<and> getStr h' r name = Some (Return v)"
proof (cases "vals (h r) name")
  case None
  note eq = putStr_absent [where h = h and r = r, OF None key]
  from put val show ?thesis
    unfolding eq
    by (auto simp: rejected_True rejected_False getStr_storeNew valueProperty_set_def isWritable_def
        split: option.splits if_splits Value.splits setEffect.splits)
next
  case (Some old)
  show ?thesis
  proof (cases "\<exists>cell. old = VProperty cell")
    case True
    then obtain cell where is_cell: "old = VProperty cell" by blast
    note eq = putStr_own_cell [where h = h and r = r, OF Some [unfolded is_cell]]
    from put have w: "isWritable cell" and na: "\<not> accessor cell"
      unfolding eq
      by (auto simp: rejected_True valueProperty_set_def isWritable_def
          split: if_splits option.splits)
    let ?cell = "ValueProperty v (writable cell) (configurable cell) (enumerable cell)
                   (accessor cell) (getterFunc cell) (setterFunc cell)"
    have h': "h' = h(r := (h r)\<lparr>vals := (vals (h r))(name \<mapsto> VProperty ?cell)\<rparr>)"
      using put w na unfolding eq by (simp add: valueProperty_set_def)
    have "getStr h' r name = Some (Return (pvalue ?cell))"
      unfolding h' using na by (intro getStr_stored_data_cell) simp_all
    then show ?thesis
      using w na h' unfolding eq by (simp add: valueProperty_set_def)
  next
    case False
    then have plain: "\<forall>p. old \<noteq> VProperty p" by simp
    note eq = putStr_own_plain [where h = h and r = r, OF Some plain]
    from put have h': "h' = h(r := (h r)\<lparr>vals := (vals (h r))(name \<mapsto> v)\<rparr>)"
      unfolding eq by simp
    have "getStr h' r name = Some (Return v)"
      unfolding h' using val by (intro getStr_stored_plain) simp_all
    then show ?thesis using h' unfolding eq by simp
  qed
qed

lemma putStr_shadowed_read_only:
  assumes key: "name \<noteq> proto_key"
    and own: "vals (h r) name = None"
    and proto: "prototype (h r) = Some pr"
    and found: "getPropStr h pr name = Some (VProperty p)"
    and cell: "\<not> accessor p" "\<not> writable p"
  shows "putStr h r name v False = Some (h, Return ())
         \<and> getStr h r name = Some (Return (pvalue p))"
proof -
  have "getPropStr h r name = Some (VProperty p)"
    using getPropStr_inherit [where h = h and r = r, OF getOwnPropStr_absent [OF own key] proto] found
    by simp
  then have "getStr h r name = Some (Return (pvalue p))"
    using cell by (simp add: getStr_def valueProperty_get_def)
  moreover have "putStr h r name v False = Some (h, Return ())"
    unfolding putStr_absent [where h = h and r = r, OF own key]
    using proto found cell by (simp add: isWritable_def rejected_False)
  ultimately show ?thesis by simp
qed

text \<open>
  C2, as the code has it. Let the object be not extensible and have no own property of
  the key, which is not the pseudo-key. When its prototype chain has no property of the
  key, or has it as a property that cannot be assigned (a data property that is not
  writable), the assignment rejects: it raises the type error when \<open>throw\<close> is set and
  returns otherwise. When the chain has the key as an accessor with a setter, the
  assignment ends by calling the setter with the object as receiver. In all these cases
  the heap is as before, so no own property is created.
\<close>

theorem putStr_not_extensible:
  assumes "\<not> extensible (h r)" and "vals (h r) name = None" and "name \<noteq> proto_key"
  shows "(prototype (h r) = None
            \<or> (\<exists>pr. prototype (h r) = Some pr \<and> getPropStr h pr name = Some GoNil)
          \<longrightarrow> putStr h r name v throw
                = Some (h, if throw then Panic (TypeError NoMessage) else Return ()))
       \<and> ((\<exists>pr. prototype (h r) = Some pr \<and> getPropStr h pr name = Some (VProperty cell))
            \<and> \<not> isWritable cell
          \<longrightarrow> putStr h r name v throw
                = Some (h, if throw then Panic (TypeError NoMessage) else Return ()))
       \<and> ((\<exists>pr. prototype (h r) = Some pr \<and> getPropStr h pr name = Some (VProperty cell))
            \<and> accessor cell \<and> setterFunc cell = Some f
          \<longrightarrow> putStr h r name v throw
                = Some (h, Invoke f \<lparr>This = VObject (Some r), Arguments = [v]\<rparr>))"
  unfolding putStr_absent [where h = h and r = r, OF assms(2,3)]
  using assms(1)
  by (auto simp: rejected_True rejected_False isWritable_def valueProperty_set_def)

theorem putStr_not_extensible_witness:
  "\<not> extensible (sealedChildHeap 0)
   \<and> vals (sealedChildHeap 0) ''y'' = None
   \<and> ''y'' \<noteq> proto_key
   \<and> prototype (sealedChildHeap 0) = Some 1
   \<and> getPropStr sealedChildHeap 1 ''y'' = Some GoNil
   \<and> putStr sealedChildHeap 0 ''y'' (VInt 2) True
       = Some (sealedChildHeap, Panic (TypeError NoMessage))
   \<and> putStr sealedChildHeap 0 ''y'' (VInt 2) False = Some (sealedChildHeap, Return ())
   \<and> \<not> extensible (sealedSetterHeap 0)
   \<and> vals (sealedSetterHeap 0) ''x'' = None
   \<and> ''x'' \<noteq> proto_key
   \<and> prototype (sealedSetterHeap 0) = Some 1
   \<and> getPropStr sealedSetterHeap 1 ''x'' = Some (VProperty setterCell)
   \<and> accessor setterCell \<and> setterFunc setterCell = Some 9
   \<and> putStr sealedSetterHeap 0 ''x'' (VInt 2) False
       = Some (sealedSetterHeap, Invoke 9 \<lparr>This = VObject (Some 0), Arguments = [VInt 2]\<rparr>)"
proof -
  have ykey: "''y'' \<noteq> proto_key" and xkey: "''x'' \<noteq> proto_key"
    by (simp_all add: proto_key_def)
  have child: "\<not> extensible (sealedChildHeap 0)" "vals (sealedChildHeap 0) ''y'' = None"
    "prototype (sealedChildHeap 0) = Some 1"
    by (simp_all add: sealedChildHeap_def emptyObject_def)
  have absent: "getPropStr sealedChildHeap 1 ''y'' = Some GoNil"
    by (rule getPropStr_end)
      (simp_all add: sealedChildHeap_def emptyObject_def getOwnPropStr_def mapGet_def ykey)
  have setter: "\<not> extensible (sealedSetterHeap 0)" "vals (sealedSetterHeap 0) ''x'' = None"
    "prototype (sealedSetterHeap 0) = Some 1"
    by (simp_all add: sealedSetterHeap_def emptyObject_def)
  have cell: "accessor setterCell" "setterFunc setterCell = Some 9"
    by (simp_all add: setterCell_def)
  show ?thesis
    using ykey xkey child absent setter cell sealedSetter_found
      putStr_not_extensible [where h = sealedChildHeap and r = 0 and name = "''y''"
        and v = "VInt 2" and throw = True, OF child(1,2) ykey]
      putStr_not_extensible [where h = sealedChildHeap and r = 0 and name = "''y''"
        and v = "VInt 2" and throw = False, OF child(1,2) ykey]
      putStr_not_extensible [where h = sealedSetterHeap and r = 0 and name = "''x''"
        and v = "VInt 2" and throw = False and cell = setterCell and f = 9,
        OF setter(1,2) xkey]
    by simp
qed

text \<open>
  C1, as the code has it. Let the key be a string other than the pseudo-key. If the
  assignment of a language value (not nil, not a property cell) is not rejected and
  completes by storing, which is when the call with \<open>throw\<close> set returns, then the call
  without \<open>throw\<close> does the same and a following get of the key on the resulting heap
  returns the value. If the object has no own property of the key and the key is found on
  its prototype chain as a data property that is not writable, the assignment without
  \<open>throw\<close> returns with the heap as it was, so that get returns the inherited value as
  before.
\<close>

theorem putStr_getStr:
  assumes "name \<noteq> proto_key"
  shows "(v \<noteq> GoNil \<and> (\<forall>c. v \<noteq> VProperty c) \<and> putStr h r name v True = Some (h', Return ())
           \<longrightarrow> putStr h r name v False = Some (h', Return ())
                \<and> getStr h' r name = Some (Return v))
       \<and> (vals (h r) name = None \<and> prototype (h r) = Some pr
            \<and> getPropStr h pr name = Some (VProperty p) \<and> \<not> accessor p \<and> \<not> writable p
           \<longrightarrow> putStr h r name v False = Some (h, Return ())
                \<and> getStr h r name = Some (Return (pvalue p)))"
  using assms putStr_stores_then_getStr putStr_shadowed_read_only by blast


theorem putStr_getStr_witness:
  "''x'' \<noteq> proto_key
   \<and> putStr chainHeap 0 ''x'' (VInt 7) True = Some (storeNew chainHeap 0 ''x'' (VInt 7), Return ())
   \<and> putStr chainHeap 0 ''x'' (VInt 7) False = Some (storeNew chainHeap 0 ''x'' (VInt 7), Return ())
   \<and> getStr (storeNew chainHeap 0 ''x'' (VInt 7)) 0 ''x'' = Some (Return (VInt 7))
   \<and> vals (readOnlyProtoHeap 0) ''x'' = None
   \<and> prototype (readOnlyProtoHeap 0) = Some 1
   \<and> getPropStr readOnlyProtoHeap 1 ''x'' = Some (VProperty fixedCell)
   \<and> \<not> accessor fixedCell \<and> \<not> writable fixedCell
   \<and> putStr readOnlyProtoHeap 0 ''x'' (VInt 7) False = Some (readOnlyProtoHeap, Return ())
   \<and> getStr readOnlyProtoHeap 0 ''x'' = Some (Return (VInt 1))"
proof -
  have key: "''x'' \<noteq> proto_key" by (simp add: proto_key_def)
  have "getPropStr chainHeap 2 ''x'' = Some GoNil"
    by (rule getPropStr_end) (simp_all add: chainHeap_def emptyObject_def getOwnPropStr_def mapGet_def key)
  then have "getPropStr chainHeap 1 ''x'' = Some GoNil"
    by (subst getPropStr_inherit [where p = 2])
      (simp_all add: chainHeap_def emptyObject_def getOwnPropStr_def mapGet_def key)
  then have put: "putStr chainHeap 0 ''x'' (VInt 7) True
                    = Some (storeNew chainHeap 0 ''x'' (VInt 7), Return ())"
    using key by (simp add: putStr_def chainHeap_def emptyObject_def)
  have own: "vals (readOnlyProtoHeap 0) ''x'' = None"
    and proto: "prototype (readOnlyProtoHeap 0) = Some 1"
    by (simp_all add: readOnlyProtoHeap_def emptyObject_def)
  have found: "getPropStr readOnlyProtoHeap 1 ''x'' = Some (VProperty fixedCell)"
    by (rule getPropStr_own)
      (simp_all add: readOnlyProtoHeap_def emptyObject_def getOwnPropStr_def mapGet_def)
  have cell: "\<not> accessor fixedCell" "\<not> writable fixedCell" "pvalue fixedCell = VInt 1"
    by (simp_all add: fixedCell_def)
  show ?thesis
    using key put own proto found cell
      putStr_getStr [OF key, where h = chainHeap and r = 0 and v = "VInt 7"
        and h' = "storeNew chainHeap 0 ''x'' (VInt 7)"]
      putStr_getStr [OF key, where h = readOnlyProtoHeap and r = 0 and v = "VInt 7"
        and pr = 1 and p = fixedCell]
    by simp
qed


text \<open>
  C10. For a base object with no stored own property under the "[[Prototype]]" pseudo-key,
  own-property lookup of that key returns the object's prototype pointer, which is never
  the absent (nil interface) value, while the own-property existence check is false.
\<close>

theorem getOwnPropStr_proto_visible:
  assumes "vals ob proto_key = None"
  shows "getOwnPropStr ob proto_key = VObject (prototype ob)
         \<and> getOwnPropStr ob proto_key \<noteq> GoNil
         \<and> \<not> hasOwnPropertyStr ob proto_key"
  using assms by (simp add: getOwnPropStr_def hasOwnPropertyStr_def mapGet_def)

theorem getOwnPropStr_proto_visible_witness:
  "vals \<lparr>class_name = ''Object'', prototype = Some 7, extensible = True,
         vals = [''x'' \<mapsto> VInt 1], propNames = [''x'']\<rparr> proto_key = None
   \<and> getOwnPropStr \<lparr>class_name = ''Object'', prototype = Some 7, extensible = True,
         vals = [''x'' \<mapsto> VInt 1], propNames = [''x'']\<rparr> proto_key = VObject (Some 7)
   \<and> \<not> hasOwnPropertyStr \<lparr>class_name = ''Object'', prototype = Some 7, extensible = True,
         vals = [''x'' \<mapsto> VInt 1], propNames = [''x'']\<rparr> proto_key"
proof -
  let ?ob = "\<lparr>class_name = ''Object'', prototype = Some 7, extensible = True,
         vals = [''x'' \<mapsto> VInt 1], propNames = [''x'']\<rparr>"
  have h: "vals ?ob proto_key = None" by (simp add: proto_key_def)
  show ?thesis using h getOwnPropStr_proto_visible [OF h] by simp
qed

lemma weakColls_after_getWeakCollRefs:
  "weakColls (fst (getWeakCollRefs s key)) key = Some (snd (getWeakCollRefs s key))"
  by (simp add: getWeakCollRefs_def Let_def split: option.splits)

text \<open>
  C7. \<open>set\<close> of a weak map obtains the key's registry, creating it when the key has
  none, stores the value under the registry's token, and adds the map to the registry's
  members; a following \<open>get\<close> of the same key on the same map returns the value.
\<close>

theorem weakMap_set_get:
  "weakMap_get (weakMap_set s wm key v) wm key = v
   \<and> weakColls (weakMap_set s wm key v) key =
       Some (case weakColls s key of Some r \<Rightarrow> r | None \<Rightarrow> nextRegistry s)
   \<and> (\<exists>r. weakColls (weakMap_set s wm key v) key = Some r
          \<and> data (weakMaps (weakMap_set s wm key v) wm) (registry_id r) = Some v
          \<and> wm \<in> set (colls (registries (weakMap_set s wm key v) r)))"
  by (cases "weakColls s key")
    (simp_all add: weakMap_set_def weakMap_get_def getWeakCollRefs_def Let_def
      weakCollections_add_def containsColl_iff registry_id_def)


lemma toObject_not_object:
  "assertObject v = None \<Longrightarrow> toObject v = Inl (TypeError NotAnObject)"
  by (cases v) (simp_all add: assertObject_def toObject_def)

text \<open>
  C8, as the code has it. With a key that is not an object, \<open>set\<close> of WeakMap.prototype
  raises and writes nothing, on a weak map receiver with the type error of a value that is
  not an object; \<open>get\<close>, \<open>has\<close> and \<open>delete\<close> on a weak map receiver do not raise:
  they return undefined, false and false and leave the state as it was.
\<close>

theorem weakMapProto_key_not_object:
  assumes "assertObject (Argument call 0) = None"
  shows "fst (weakMapProto_set s call) = s \<and> (\<exists>e. snd (weakMapProto_set s call) = Panic e)
    \<and> (weakMapReceiver s (This call) ''set'' = Inr wm \<longrightarrow>
         weakMapProto_set s call = (s, Panic (TypeError NotAnObject)))
    \<and> (weakMapReceiver s (This call) ''get'' = Inr wm \<longrightarrow>
         weakMapProto_get s call = (s, Return VUndefined))
    \<and> (weakMapReceiver s (This call) ''has'' = Inr wm \<longrightarrow>
         weakMapProto_has s call = (s, Return (VBool False)))
    \<and> (weakMapReceiver s (This call) ''delete'' = Inr wm \<longrightarrow>
         weakMapProto_delete capacity s call = (s, Return (VBool False)))"
  using assms toObject_not_object [OF assms]
  by (simp add: weakMapProto_set_def weakMapProto_get_def weakMapProto_has_def
      weakMapProto_delete_def split: sum.splits)

lemma exampleWeakState_receiver:
  "weakMapReceiver exampleWeakState (VObject (Some 5)) m = Inr 0"
  by (simp add: weakMapReceiver_def toObject_def exampleWeakState_def)

theorem weakMapProto_key_not_object_witness:
  "assertObject (Argument \<lparr>This = VObject (Some 5), Arguments = [VInt 1, VInt 2]\<rparr> 0) = None
   \<and> weakMapProto_set exampleWeakState \<lparr>This = VObject (Some 5), Arguments = [VInt 1, VInt 2]\<rparr>
       = (exampleWeakState, Panic (TypeError NotAnObject))
   \<and> weakMapProto_has exampleWeakState \<lparr>This = VObject (Some 5), Arguments = [VInt 1, VInt 2]\<rparr>
       = (exampleWeakState, Return (VBool False))
   \<and> weakMapProto_delete 0 exampleWeakState \<lparr>This = VObject (Some 5), Arguments = [VInt 1, VInt 2]\<rparr>
       = (exampleWeakState, Return (VBool False))"
proof -
  let ?call = "\<lparr>This = VObject (Some 5), Arguments = [VInt 1, VInt 2]\<rparr>"
  have h: "assertObject (Argument ?call 0) = None"
    by (simp add: assertObject_def Argument_def)
  show ?thesis
    using h weakMapProto_key_not_object [OF h, of exampleWeakState 0 0]
      exampleWeakState_receiver
    by simp
qed

text \<open>C8 as stated fails: \<open>get\<close> with the number 1 as key on a weak map returns undefined
  and raises nothing.\<close>

theorem weakMapProto_get_not_object_counterexample:
  "weakMapProto_get exampleWeakState \<lparr>This = VObject (Some 5), Arguments = [VInt 1]\<rparr>
     = (exampleWeakState, Return VUndefined)
   \<and> snd (weakMapProto_get exampleWeakState
             \<lparr>This = VObject (Some 5), Arguments = [VInt 1]\<rparr>)
       \<noteq> Panic (TypeError NotAnObject)"
  by (simp add: weakMapProto_get_def exampleWeakState_receiver assertObject_def Argument_def)


text \<open>
  C9. Registering a weak collection in a registry is idempotent: adding a collection that
  is already a member returns the registry unchanged, adding twice is adding once, and a
  membership list without duplicates stays without duplicates.
\<close>

theorem weakCollections_add_idempotent:
  "(c \<in> set (colls r) \<longrightarrow> weakCollections_add r c = r)
   \<and> weakCollections_add (weakCollections_add r c) c = weakCollections_add r c
   \<and> (distinct (colls r) \<longrightarrow> distinct (colls (weakCollections_add r c)))"
  by (simp add: weakCollections_add_def containsColl_iff)

theorem weakCollections_add_idempotent_witness:
  "(2::nat) \<in> set (colls \<lparr>colls = [1, 2]\<rparr>)
   \<and> weakCollections_add \<lparr>colls = [1, 2]\<rparr> 2 = \<lparr>colls = [1, 2]\<rparr>
   \<and> distinct (colls \<lparr>colls = [1, 2]\<rparr>)
   \<and> distinct (colls (weakCollections_add \<lparr>colls = [1, 2]\<rparr> 3))"
  using weakCollections_add_idempotent [of 2 "\<lparr>colls = [1, 2]\<rparr>"]
    weakCollections_add_idempotent [of 3 "\<lparr>colls = [1, 2]\<rparr>"]
  by simp

subsection \<open>Enumeration\<close>

declare ownLoop.simps [simp del]

lemma ownLoop_result:
  "ownLoop h i = (x, i') \<Longrightarrow>
   iter_o i' = iter_o i \<and> iter_propNames i' = iter_propNames i
   \<and> iter_recursive i' = iter_recursive i
   \<and> ownItems (h (iter_o i)) (drop (iter_idx i) (iter_propNames i))
       = (case x of None \<Rightarrow> [] | Some item \<Rightarrow>
            item # ownItems (h (iter_o i)) (drop (iter_idx i') (iter_propNames i')))"
proof (induction h i arbitrary: x i' rule: ownLoop.induct)
  case (1 h i)
  show ?case
  proof (cases "iter_idx i < length (iter_propNames i)")
    case False
    with "1.prems" show ?thesis
      by (subst (asm) ownLoop.simps) (auto simp: ownItems_def)
  next
    case True
    let ?name = "iter_propNames i ! iter_idx i"
    let ?i1 = "i\<lparr>iter_idx := iter_idx i + 1\<rparr>"
    have dr: "drop (iter_idx i) (iter_propNames i) = ?name # drop (Suc (iter_idx i)) (iter_propNames i)"
      using True by (simp add: Cons_nth_drop_Suc)
    show ?thesis
    proof (cases "mapGet (vals (h (iter_o i))) ?name \<noteq> GoNil")
      case present: True
      with "1.prems" True have "x = Some \<lparr>item_name = ?name, item_value = mapGet (vals (h (iter_o i))) ?name,
          item_enumerable = ENUM_UNKNOWN\<rparr>" and "i' = ?i1"
        by (subst (asm) ownLoop.simps, simp add: Let_def)+
      then show ?thesis using present dr by (simp add: ownItems_def)
    next
      case absent: False
      with "1.prems" True have rec: "ownLoop h ?i1 = (x, i')"
        by (subst (asm) ownLoop.simps) (simp add: Let_def)
      have "iter_o i' = iter_o ?i1 \<and> iter_propNames i' = iter_propNames ?i1
        \<and> iter_recursive i' = iter_recursive ?i1
        \<and> ownItems (h (iter_o ?i1)) (drop (iter_idx ?i1) (iter_propNames ?i1))
            = (case x of None \<Rightarrow> [] | Some item \<Rightarrow>
                item # ownItems (h (iter_o ?i1)) (drop (iter_idx i') (iter_propNames i')))"
        using absent True by (intro "1.IH" [OF True refl refl refl _ rec]) simp
      then show ?thesis using absent dr by (cases x) (simp_all add: ownItems_def)
    qed
  qed
qed

lemma protoChain_Nil: "protoChain h p [] \<Longrightarrow> p = None"
  by (erule protoChain.cases) simp_all

lemma protoChain_Cons:
  "protoChain h p (q # rs) \<Longrightarrow> p = Some q \<and> protoChain h (prototype (h q)) rs"
  by (erule protoChain.cases) simp_all

lemma objectPropIter_next_remaining:
  "chainOf h i rs \<Longrightarrow>
   (case remaining h i rs of
      [] \<Rightarrow> objectPropIter_next h i = Some (emptyItem, None)
    | item # rest \<Rightarrow>
        (\<exists>i' rs'. objectPropIter_next h i = Some (item, Some i')
                  \<and> chainOf h i' rs' \<and> remaining h i' rs' = rest))"
proof (induction rs arbitrary: i)
  case Nil
  obtain x i' where loop: "ownLoop h i = (x, i')" by (cases "ownLoop h i")
  note res = ownLoop_result [OF loop]
  show ?case
  proof (cases x)
    case None
    have "iter_recursive i \<Longrightarrow> prototype (h (iter_o i)) = None"
      using Nil by (auto simp: chainOf_def dest: protoChain_Nil)
    then have "objectPropIter_next h i = Some (emptyItem, None)"
      using loop None res by (subst objectPropIter_next.simps) (auto split: option.splits)
    moreover have "remaining h i [] = []"
      using res None by (simp add: remaining_def)
    ultimately show ?thesis by simp
  next
    case (Some item)
    have "objectPropIter_next h i = Some (item, Some i')"
      using loop Some by (subst objectPropIter_next.simps) simp
    moreover have "chainOf h i' []"
      using Nil res by (simp add: chainOf_def)
    moreover have "remaining h i [] = item # remaining h i' []"
      using res Some by (simp add: remaining_def)
    ultimately show ?thesis by auto
  qed
next
  case (Cons p rs)
  obtain x i' where loop: "ownLoop h i = (x, i')" by (cases "ownLoop h i")
  note res = ownLoop_result [OF loop]
  from Cons.prems have recu: "iter_recursive i"
    and proto: "prototype (h (iter_o i)) = Some p"
    and chain: "protoChain h (prototype (h p)) rs"
    by (auto simp: chainOf_def dest: protoChain_Cons split: if_splits)
  show ?case
  proof (cases x)
    case None
    let ?fresh = "baseObject__enumerate h p (iter_recursive i')"
    have step: "objectPropIter_next h i = objectPropIter_next h ?fresh"
      using loop None res recu proto by (subst objectPropIter_next.simps) simp
    have fresh_chain: "chainOf h ?fresh rs"
      using chain res recu by (simp add: chainOf_def baseObject__enumerate_def)
    have "remaining h i (p # rs) = remaining h ?fresh rs"
      using res None by (simp add: remaining_def baseObject__enumerate_def)
    then show ?thesis using Cons.IH [OF fresh_chain] unfolding step by simp
  next
    case (Some item)
    have "objectPropIter_next h i = Some (item, Some i')"
      using loop Some by (subst objectPropIter_next.simps) simp
    moreover have "chainOf h i' (p # rs)"
      using Cons.prems res by (simp add: chainOf_def)
    moreover have "remaining h i (p # rs) = item # remaining h i' (p # rs)"
      using res Some by (simp add: remaining_def)
    ultimately show ?thesis by auto
  qed
qed

lemma propFilterIter_next_filter:
  "chainOf h (wrapped fi) rs \<Longrightarrow> remaining h (wrapped fi) rs = xs \<Longrightarrow>
   (case filterItems (filter_all fi) (seen fi) xs of
      [] \<Rightarrow> propFilterIter_next h fi = Some (emptyItem, None)
    | y # ys \<Rightarrow>
        (\<exists>fi' rs'. propFilterIter_next h fi = Some (y, Some fi')
            \<and> chainOf h (wrapped fi') rs'
            \<and> filterItems (filter_all fi') (seen fi') (remaining h (wrapped fi') rs') = ys))"
proof (induction xs arbitrary: fi rs)
  case Nil
  then have "objectPropIter_next h (wrapped fi) = Some (emptyItem, None)"
    using objectPropIter_next_remaining [OF Nil.prems(1)] by simp
  then show ?case by (subst propFilterIter_next.simps) simp
next
  case (Cons x xs)
  from objectPropIter_next_remaining [OF Cons.prems(1)] Cons.prems(2)
  obtain i' rs' where nxt: "objectPropIter_next h (wrapped fi) = Some (x, Some i')"
    and chain': "chainOf h i' rs'" and rem': "remaining h i' rs' = xs"
    by auto
  show ?case
  proof (cases "item_name x \<in> seen fi")
    case True
    let ?fi1 = "fi\<lparr>wrapped := i'\<rparr>"
    have step: "propFilterIter_next h fi = propFilterIter_next h ?fi1"
      using nxt True by (subst propFilterIter_next.simps) simp
    have "chainOf h (wrapped ?fi1) rs'" "remaining h (wrapped ?fi1) rs' = xs"
      using chain' rem' by simp_all
    from Cons.IH [OF this] show ?thesis unfolding step using True by simp
  next
    case False
    let ?fi1 = "fi\<lparr>wrapped := i', seen := insert (item_name x) (seen fi)\<rparr>"
    have c1: "chainOf h (wrapped ?fi1) rs'" and r1: "remaining h (wrapped ?fi1) rs' = xs"
      using chain' rem' by simp_all
    show ?thesis
    proof (cases "passedOver (filter_all fi) x")
      case True
      have step: "propFilterIter_next h fi = propFilterIter_next h ?fi1"
        using nxt False True by (subst propFilterIter_next.simps) (simp add: passedOver_def)
      from Cons.IH [OF c1 r1] show ?thesis unfolding step using False True by simp
    next
      case keep: False
      have step: "propFilterIter_next h fi = Some (x, Some ?fi1)"
        using nxt False keep by (subst propFilterIter_next.simps) (auto simp: passedOver_def)
      show ?thesis using False keep step c1 r1 by auto
    qed
  qed
qed

lemma iterateAll_filter:
  "chainOf h (wrapped fi) rs \<Longrightarrow>
   filterItems (filter_all fi) (seen fi) (remaining h (wrapped fi) rs) = ys \<Longrightarrow>
   iterateAll h fi = Some ys"
proof (induction ys arbitrary: fi rs)
  case Nil
  from propFilterIter_next_filter [OF Nil.prems(1) refl] Nil.prems(2)
  have "propFilterIter_next h fi = Some (emptyItem, None)" by simp
  then show ?case by (subst iterateAll.simps) simp
next
  case (Cons y ys)
  from propFilterIter_next_filter [OF Cons.prems(1) refl] Cons.prems(2)
  obtain fi' rs' where nxt: "propFilterIter_next h fi = Some (y, Some fi')"
    and c: "chainOf h (wrapped fi') rs'"
    and f: "filterItems (filter_all fi') (seen fi') (remaining h (wrapped fi') rs') = ys"
    by auto
  from Cons.IH [OF c f] nxt show ?case by (subst iterateAll.simps) simp
qed

lemma ownItems_map: "ownItems ob names = map (ownItem ob) (filter (\<lambda>n. mapGet (vals ob) n \<noteq> GoNil) names)"
  by (simp add: ownItems_def ownItem_def)

lemma filterItems_append:
  "filterItems all S (xs @ ys) =
     filterItems all S xs @ filterItems all (S \<union> item_name ` set xs) ys"
proof (induction xs arbitrary: S)
  case Nil
  show ?case by simp
next
  case (Cons x xs)
  show ?case
  proof (cases "item_name x \<in> S")
    case True
    then have "insert (item_name x) (S \<union> item_name ` set xs) = S \<union> item_name ` set xs"
      by auto
    then show ?thesis using True Cons.IH [of S] by simp
  next
    case False
    then show ?thesis using Cons.IH [of "insert (item_name x) S"] by simp
  qed
qed

lemma filterItems_unseen: "y \<in> set (filterItems all S xs) \<Longrightarrow> item_name y \<notin> S"
  by (induction xs arbitrary: S) (auto split: if_splits)

lemma filterItems_distinct: "distinct (map item_name (filterItems all S xs))"
proof (induction xs arbitrary: S)
  case Nil
  show ?case by simp
next
  case (Cons x xs)
  have "item_name x \<notin> item_name ` set (filterItems all (insert (item_name x) S) xs)"
  proof
    assume "item_name x \<in> item_name ` set (filterItems all (insert (item_name x) S) xs)"
    then obtain y where y: "y \<in> set (filterItems all (insert (item_name x) S) xs)"
      and same: "item_name y = item_name x" by auto
    from filterItems_unseen [OF y] same show False by simp
  qed
  then show ?case using Cons.IH by simp
qed

lemma filterItems_subseq: "subseq (filterItems all S xs) xs"
  by (induction xs arbitrary: S) auto

lemma filterItems_subset: "x \<in> set (filterItems all S xs) \<Longrightarrow> x \<in> set xs"
  by (induction xs arbitrary: S) (auto split: if_splits)

lemma ownItems_names: "map item_name (ownItems ob names) = filter (\<lambda>n. mapGet (vals ob) n \<noteq> GoNil) names"
  by (simp add: ownItems_def comp_def)

lemma filterItems_own_names:
  "distinct names \<Longrightarrow>
   map item_name (filterItems all S (ownItems ob names))
     = filter (\<lambda>n. n \<notin> S \<and> visibleOwn all ob n) names"
proof (induction names arbitrary: S)
  case Nil
  show ?case by (simp add: ownItems_def)
next
  case (Cons n ns)
  then have fresh: "n \<notin> set ns" and dist: "distinct ns" by simp_all
  have skip: "filter (\<lambda>m. m \<notin> insert n S \<and> visibleOwn all ob m) ns
                = filter (\<lambda>m. m \<notin> S \<and> visibleOwn all ob m) ns"
    using fresh by (intro filter_cong) auto
  show ?case
  proof (cases "mapGet (vals ob) n \<noteq> GoNil")
    case False
    then have "ownItems ob (n # ns) = ownItems ob ns" by (simp add: ownItems_def)
    then show ?thesis using Cons.IH [OF dist, of S] False by (simp add: visibleOwn_def)
  next
    case True
    then have own: "ownItems ob (n # ns) = ownItem ob n # ownItems ob ns"
      by (simp add: ownItems_def ownItem_def)
    have nm: "item_name (ownItem ob n) = n" by (simp add: ownItem_def)
    show ?thesis
      unfolding own
      using Cons.IH [OF dist, of S] Cons.IH [OF dist, of "insert n S"] True skip nm
      by (simp add: visibleOwn_def)
  qed
qed

lemma iterateAll_enumerate:
  assumes "if recursive then protoChain h' (prototype (h' r)) ancestors else ancestors = []"
  shows "iterateAll h' (baseObject_enumerate h r all recursive)
           = Some (filterItems all {} (ownItems (h' r) (propNames (h r)))
                   @ filterItems all (item_name ` set (ownItems (h' r) (propNames (h r))))
                       (concat (map (\<lambda>a. ownItems (h' a) (propNames (h' a))) ancestors)))"
proof -
  let ?fi = "baseObject_enumerate h r all recursive"
  have chain: "chainOf h' (wrapped ?fi) ancestors"
    using assms by (simp add: chainOf_def baseObject_enumerate_def baseObject__enumerate_def)
  have rem: "remaining h' (wrapped ?fi) ancestors
               = ownItems (h' r) (propNames (h r))
                 @ concat (map (\<lambda>a. ownItems (h' a) (propNames (h' a))) ancestors)"
    by (simp add: remaining_def baseObject_enumerate_def baseObject__enumerate_def)
  have "iterateAll h' ?fi = Some (filterItems (filter_all ?fi) (seen ?fi)
                                   (remaining h' (wrapped ?fi) ancestors))"
    using chain by (rule iterateAll_filter) simp
  then show ?thesis
    unfolding rem filterItems_append
    by (simp add: baseObject_enumerate_def)
qed

lemma ownItems_member: "item \<in> set (ownItems ob names) \<Longrightarrow> item = ownItem ob (item_name item)"
  by (auto simp: ownItems_def ownItem_def)

text \<open>
  C5. For every object and both flags, when the prototype chain is finite (or is not
  walked), the enumeration returns a list of items in which no name occurs twice. The list
  is the own items followed by the inherited ones: the own names are a subsequence of the
  object's key order, and, the key order being duplicate-free, they are exactly the keys
  of that order that the object holds and that are enumerable (or all of them when all
  properties are asked for); every later item is an own property of an ancestor.
\<close>

theorem enumerate_no_duplicates_own_first:
  assumes "if recursive then protoChain h (prototype (h r)) ancestors else ancestors = []"
  shows "\<exists>own inherited.
      iterateAll h (baseObject_enumerate h r all recursive) = Some (own @ inherited)
    \<and> distinct (map item_name (own @ inherited))
    \<and> subseq (map item_name own) (propNames (h r))
    \<and> (\<forall>item \<in> set own. item = ownItem (h r) (item_name item))
    \<and> (distinct (propNames (h r)) \<longrightarrow>
         map item_name own = filter (visibleOwn all (h r)) (propNames (h r)))
    \<and> (\<forall>item \<in> set inherited.
         \<exists>a \<in> set ancestors. item = ownItem (h a) (item_name item)
                             \<and> item_name item \<in> set (propNames (h a)))"
proof -
  let ?O = "ownItems (h r) (propNames (h r))"
  let ?I = "concat (map (\<lambda>a. ownItems (h a) (propNames (h a))) ancestors)"
  let ?own = "filterItems all {} ?O"
  let ?inh = "filterItems all (item_name ` set ?O) ?I"
  have run: "iterateAll h (baseObject_enumerate h r all recursive) = Some (?own @ ?inh)"
    using assms by (rule iterateAll_enumerate)
  have "?own @ ?inh = filterItems all {} (?O @ ?I)"
    by (simp add: filterItems_append)
  then have dist: "distinct (map item_name (?own @ ?inh))"
    by (simp only: filterItems_distinct)
  have "subseq (map item_name ?own) (map item_name ?O)"
    by (intro subseq_map filterItems_subseq)
  moreover have "subseq (map item_name ?O) (propNames (h r))"
    by (simp add: ownItems_names)
  ultimately have order: "subseq (map item_name ?own) (propNames (h r))"
    by (rule subseq_order.trans)
  have own: "\<forall>item \<in> set ?own. item = ownItem (h r) (item_name item)"
    using filterItems_subset ownItems_member by blast
  have names: "distinct (propNames (h r)) \<longrightarrow>
         map item_name ?own = filter (visibleOwn all (h r)) (propNames (h r))"
    using filterItems_own_names [of "propNames (h r)" all "{}" "h r"] by simp
  have inh: "\<forall>item \<in> set ?inh.
         \<exists>a \<in> set ancestors. item = ownItem (h a) (item_name item)
                             \<and> item_name item \<in> set (propNames (h a))"
  proof
    fix item assume "item \<in> set ?inh"
    then have "item \<in> set ?I" by (rule filterItems_subset)
    then obtain a where a: "a \<in> set ancestors" "item \<in> set (ownItems (h a) (propNames (h a)))"
      by auto
    then have "item = ownItem (h a) (item_name item)" by (intro ownItems_member)
    moreover have "item_name item \<in> set (propNames (h a))"
      using a(2) by (auto simp: ownItems_def)
    ultimately show "\<exists>a \<in> set ancestors. item = ownItem (h a) (item_name item)
                             \<and> item_name item \<in> set (propNames (h a))"
      using a(1) by blast
  qed
  from run dist order own names inh show ?thesis by blast
qed

lemma enumHeap_chain: "protoChain enumHeap (prototype (enumHeap 0)) [1]"
proof -
  have "protoChain enumHeap (prototype (enumHeap 1)) []"
    by (simp add: enumHeap_def emptyObject_def protoChain.chain_end)
  then have "protoChain enumHeap (Some 1) [1]" by (rule protoChain.chain_step)
  then show ?thesis by (simp add: enumHeap_def emptyObject_def)
qed

lemma enumHeap_items:
  "ownItems (enumHeap 0) [''a'', ''b'', ''c'']
     = [\<lparr>item_name = ''a'', item_value = VInt 1, item_enumerable = ENUM_UNKNOWN\<rparr>,
        \<lparr>item_name = ''b'', item_value = VProperty hiddenCell, item_enumerable = ENUM_UNKNOWN\<rparr>,
        \<lparr>item_name = ''c'', item_value = VInt 3, item_enumerable = ENUM_UNKNOWN\<rparr>]"
  "ownItems (enumHeap (Suc 0)) [''c'', ''d'']
     = [\<lparr>item_name = ''c'', item_value = VInt 30, item_enumerable = ENUM_UNKNOWN\<rparr>,
        \<lparr>item_name = ''d'', item_value = VInt 4, item_enumerable = ENUM_UNKNOWN\<rparr>]"
  by (simp_all add: ownItems_def enumHeap_def emptyObject_def mapGet_def)

lemma enumHeap_names:
  "propNames (enumHeap 0) = [''a'', ''b'', ''c'']"
  "propNames (enumHeap (Suc 0)) = [''c'', ''d'']"
  by (simp_all add: enumHeap_def emptyObject_def)

lemma enumHeap_recursive:
  "iterateAll enumHeap (baseObject_enumerate enumHeap 0 False True)
     = Some [\<lparr>item_name = ''a'', item_value = VInt 1, item_enumerable = ENUM_UNKNOWN\<rparr>,
             \<lparr>item_name = ''c'', item_value = VInt 3, item_enumerable = ENUM_UNKNOWN\<rparr>,
             \<lparr>item_name = ''d'', item_value = VInt 4, item_enumerable = ENUM_UNKNOWN\<rparr>]"
proof -
  have "if True then protoChain enumHeap (prototype (enumHeap 0)) [1] else [1] = []"
    using enumHeap_chain by simp
  from iterateAll_enumerate [where h = enumHeap and h' = enumHeap and r = 0 and all = False
      and recursive = True and ancestors = "[1]", OF this]
  show ?thesis
    by (simp add: enumHeap_items enumHeap_names passedOver_def notEnumerable_def hiddenCell_def)
qed

theorem enumerate_no_duplicates_own_first_witness:
  "protoChain enumHeap (prototype (enumHeap 0)) [1]
   \<and> iterateAll enumHeap (baseObject_enumerate enumHeap 0 False True)
       = Some [\<lparr>item_name = ''a'', item_value = VInt 1, item_enumerable = ENUM_UNKNOWN\<rparr>,
               \<lparr>item_name = ''c'', item_value = VInt 3, item_enumerable = ENUM_UNKNOWN\<rparr>,
               \<lparr>item_name = ''d'', item_value = VInt 4, item_enumerable = ENUM_UNKNOWN\<rparr>]
   \<and> distinct (map item_name
         [\<lparr>item_name = ''a'', item_value = VInt 1, item_enumerable = ENUM_UNKNOWN\<rparr>,
          \<lparr>item_name = ''c'', item_value = VInt 3, item_enumerable = ENUM_UNKNOWN\<rparr>,
          \<lparr>item_name = ''d'', item_value = VInt 4, item_enumerable = ENUM_UNKNOWN\<rparr>])"
proof -
  have chain: "if True then protoChain enumHeap (prototype (enumHeap 0)) [1] else [1] = []"
    using enumHeap_chain by simp
  note inst = enumerate_no_duplicates_own_first [where h = enumHeap and r = 0 and all = False
      and recursive = True and ancestors = "[1]"]
  from inst chain obtain own inherited
    where run: "iterateAll enumHeap (baseObject_enumerate enumHeap 0 False True)
                  = Some (own @ inherited)"
      and dist: "distinct (map item_name (own @ inherited))"
    by blast
  from run enumHeap_recursive dist enumHeap_chain show ?thesis by simp
qed

































end
